theory Spec2Isabelle
  imports Complex_Main "HOL-Library.AList"
begin

section \<open>Shared Python notions\<close>

text \<open>
  The four services of \<^verbatim>\<open>app/services\<close> are embedded as pure functions that take the
  object's state and return the new one. Everything the environment decides (the clock,
  \<^verbatim>\<open>uuid4()\<close>, the answer of an HTTP probe, whether a socket write succeeds) is an
  explicit argument. Calls to the logger are left out: the logger is a write-only sink.

  \<^verbatim>\<open>time.time()\<close> is a float; it is read here as a real number of seconds. One call of
  a service method reads the clock at one instant.
\<close>

type_synonym pytime = real

text \<open>
  The exceptions that the modelled code raises or handles. All of them are subclasses of
  \<^verbatim>\<open>Exception\<close>. \<^verbatim>\<open>CircuitBreakerOpenError(service)\<close> and
  \<^verbatim>\<open>ExternalServiceError(service, message)\<close> are the classes of
  \<^verbatim>\<open>app/core/exceptions.py\<close>; \<open>OtherException cls msg\<close> stands for any other subclass
  of \<^verbatim>\<open>Exception\<close>, with its class name and \<^verbatim>\<open>str(e)\<close>.
\<close>

datatype py_exception =
    CircuitBreakerOpenError string
  | ExternalServiceError string string
  | KeyError string
  | ValueError string
  | ZeroDivisionError
  | OtherException string string

text \<open>\<^verbatim>\<open>str(e)\<close>: an \<^verbatim>\<open>EllieException\<close> passes its message to \<^verbatim>\<open>Exception.__init__\<close>.\<close>

fun exc_str :: "py_exception \<Rightarrow> string" where
  "exc_str (CircuitBreakerOpenError service) =
     ''Circuit breaker is open for service: '' @ service"
| "exc_str (ExternalServiceError service message) =
     ''External service error ('' @ service @ ''): '' @ message"
| "exc_str (KeyError k) = [CHR 0x27] @ k @ [CHR 0x27]"
| "exc_str (ValueError msg) = msg"
| "exc_str ZeroDivisionError = ''integer division or modulo by zero''"
| "exc_str (OtherException cls msg) = msg"

text \<open>\<^verbatim>\<open>str(n)\<close> of an integer, as an f-string prints it.\<close>

definition digit_char :: "nat \<Rightarrow> char" where
  "digit_char d = ''0123456789'' ! d"

function str_nat :: "nat \<Rightarrow> string" where
  "str_nat n = (if n < 10 then [digit_char n] else str_nat (n div 10) @ [digit_char (n mod 10)])"
  by pat_completeness auto
termination
  by (relation "measure id") auto

definition str_int :: "int \<Rightarrow> string" where
  "str_int i = (if i < 0 then CHR ''-'' # str_nat (nat (- i)) else str_nat (nat i))"

text \<open>\<^verbatim>\<open>int(x)\<close> of a float truncates towards zero.\<close>

definition int_of_float :: "real \<Rightarrow> int" where
  "int_of_float x = (if 0 \<le> x then \<lfloor>x\<rfloor> else \<lceil>x\<rceil>)"

section \<open>Service discovery (\<^verbatim>\<open>service_discovery.py\<close>)\<close>

text \<open>
  \<^verbatim>\<open>class ServiceInfo(BaseModel)\<close>. The field \<^verbatim>\<open>id\<close> is named \<open>service_id\<close> here
  (\<open>id\<close> is the identity function of HOL). \<^verbatim>\<open>health_status\<close> is a plain string in the
  source and stays one.
\<close>

record ServiceInfo =
  service_id :: string
  name :: string
  version :: string
  host :: string
  port :: int
  protocol :: string
  health_endpoint :: string
  tags :: "string list"
  dependencies :: "string list"
  metadata :: "(string \<times> string) list"
  registered_at :: pytime
  last_health_check :: "pytime option"
  health_status :: string
  consecutive_failures :: int
  response_time_ms :: "real option"

text \<open>
  The dictionary \<^verbatim>\<open>service_data\<close> passed to \<^verbatim>\<open>register_service\<close>: a key that may be
  absent is an option. \<^verbatim>\<open>service_data["name"]\<close> raises \<^verbatim>\<open>KeyError\<close> when absent,
  \<^verbatim>\<open>service_data.get("protocol", "http")\<close> falls back to the default.
\<close>

record service_data =
  d_id :: "string option"
  d_name :: "string option"
  d_version :: "string option"
  d_host :: "string option"
  d_port :: "int option"
  d_protocol :: "string option"
  d_health_endpoint :: "string option"
  d_tags :: "string list option"
  d_dependencies :: "string list option"
  d_metadata :: "(string \<times> string) list option"

record discovery_stats =
  total_services :: int
  healthy_services :: int
  unhealthy_services :: int
  total_health_checks :: int
  failed_health_checks :: int
  average_response_time :: real

text \<open>
  \<^verbatim>\<open>class ServiceDiscovery\<close>: \<^verbatim>\<open>self.services\<close> is a dict, kept as an association list
  in insertion order (the order of \<^verbatim>\<open>self.services.values()\<close>).
\<close>

record ServiceDiscovery =
  services :: "(string \<times> ServiceInfo) list"
  sd_stats :: discovery_stats

definition ServiceDiscovery_init :: ServiceDiscovery where
  "ServiceDiscovery_init =
     \<lparr>services = [],
      sd_stats = \<lparr>total_services = 0, healthy_services = 0, unhealthy_services = 0,
                  total_health_checks = 0, failed_health_checks = 0,
                  average_response_time = 0\<rparr>\<rparr>"

definition dict_get_or :: "'a option \<Rightarrow> 'a \<Rightarrow> 'a" where
  "dict_get_or v dflt = (case v of None \<Rightarrow> dflt | Some x \<Rightarrow> x)"

definition dict_item :: "string \<Rightarrow> 'a option \<Rightarrow> py_exception + 'a" where
  "dict_item k v = (case v of None \<Rightarrow> Inl (KeyError k) | Some x \<Rightarrow> Inr x)"

text \<open>
  \<^verbatim>\<open>register_service\<close>. \<open>uuid\<close> is the value of \<^verbatim>\<open>str(uuid4())\<close>, \<open>now\<close> the value of
  \<^verbatim>\<open>datetime.now(timezone.utc)\<close>. The result is the returned id and the new registry,
  or the \<^verbatim>\<open>KeyError\<close> of the first required key that is missing (the registry is then
  unchanged).
\<close>

definition register_service ::
  "ServiceDiscovery \<Rightarrow> service_data \<Rightarrow> string \<Rightarrow> pytime \<Rightarrow> py_exception + (string \<times> ServiceDiscovery)"
where
  "register_service self d uuid now =
     (let sid = dict_get_or (d_id d) uuid in
      case dict_item ''name'' (d_name d) of Inl e \<Rightarrow> Inl e | Inr nm \<Rightarrow>
     (case dict_item ''version'' (d_version d) of Inl e \<Rightarrow> Inl e | Inr ver \<Rightarrow>
     (case dict_item ''host'' (d_host d) of Inl e \<Rightarrow> Inl e | Inr hst \<Rightarrow>
     (case dict_item ''port'' (d_port d) of Inl e \<Rightarrow> Inl e | Inr prt \<Rightarrow>
      (let service_info =
             \<lparr>service_id = sid, name = nm, version = ver, host = hst, port = prt,
              protocol = dict_get_or (d_protocol d) ''http'',
              health_endpoint = dict_get_or (d_health_endpoint d) ''/health'',
              tags = dict_get_or (d_tags d) [],
              dependencies = dict_get_or (d_dependencies d) [],
              metadata = dict_get_or (d_metadata d) [],
              registered_at = now,
              last_health_check = None,
              health_status = ''unknown'',
              consecutive_failures = 0,
              response_time_ms = None\<rparr>;
           services' = AList.update sid service_info (services self)
       in Inr (sid, self\<lparr>services := services',
                         sd_stats := (sd_stats self)\<lparr>total_services := int (length services')\<rparr>\<rparr>))))))"

definition deregister_service :: "ServiceDiscovery \<Rightarrow> string \<Rightarrow> bool \<times> ServiceDiscovery" where
  "deregister_service self sid =
     (if sid \<in> fst ` set (services self)
      then (let services' = AList.delete sid (services self)
            in (True, self\<lparr>services := services',
                            sd_stats := (sd_stats self)\<lparr>total_services := int (length services')\<rparr>\<rparr>))
      else (False, self))"

definition get_service :: "ServiceDiscovery \<Rightarrow> string \<Rightarrow> ServiceInfo option" where
  "get_service self sid = map_of (services self) sid"

definition get_all_services :: "ServiceDiscovery \<Rightarrow> ServiceInfo list" where
  "get_all_services self = map snd (services self)"

definition get_services_by_name :: "ServiceDiscovery \<Rightarrow> string \<Rightarrow> ServiceInfo list" where
  "get_services_by_name self nm = filter (\<lambda>s. name s = nm) (map snd (services self))"

text \<open>
  The sort key of \<^verbatim>\<open>discover_service\<close>, \<^verbatim>\<open>s.response_time_ms or float('inf')\<close>:
  \<open>None\<close> stands for \<^verbatim>\<open>float('inf')\<close>. Python's \<^verbatim>\<open>or\<close> takes the right operand when
  the left one is falsy, and both \<^verbatim>\<open>None\<close> and \<^verbatim>\<open>0.0\<close> are falsy.
\<close>

definition latency_key :: "ServiceInfo \<Rightarrow> real option" where
  "latency_key s =
     (case response_time_ms s of
        None \<Rightarrow> None
      | Some x \<Rightarrow> if x = 0 then None else Some x)"

fun key_less :: "real option \<Rightarrow> real option \<Rightarrow> bool" where
  "key_less (Some x) (Some y) = (x < y)"
| "key_less (Some x) None = True"
| "key_less None _ = False"

text \<open>
  \<^verbatim>\<open>min(xs, key=...)\<close> on a non-empty list: the first element whose key is minimal (an
  element replaces the best one so far only when its key is strictly smaller).
\<close>

fun py_min_from :: "ServiceInfo \<Rightarrow> ServiceInfo list \<Rightarrow> ServiceInfo" where
  "py_min_from best [] = best"
| "py_min_from best (x # xs) =
     py_min_from (if key_less (latency_key x) (latency_key best) then x else best) xs"

definition discover_service ::
  "ServiceDiscovery \<Rightarrow> string \<Rightarrow> string list option \<Rightarrow> ServiceInfo option"
where
  "discover_service self nm tgs =
     (let by_name = get_services_by_name self nm;
          matching = (case tgs of
                        None \<Rightarrow> by_name
                      | Some ts \<Rightarrow>
                          if ts = [] then by_name
                          else filter (\<lambda>s. list_all (\<lambda>tag. tag \<in> set (tags s)) ts) by_name);
          healthy_services = filter (\<lambda>s. health_status s = ''healthy'') matching
      in case healthy_services of
           h # hs \<Rightarrow> Some (py_min_from h hs)
         | [] \<Rightarrow> (case matching of s # _ \<Rightarrow> Some s | [] \<Rightarrow> None))"

text \<open>
  What \<^verbatim>\<open>await client.get(url)\<close> does inside \<^verbatim>\<open>_check_service_health\<close>: it returns a
  response with a status code, or raises (a transport error or a timeout).
\<close>

datatype probe_result = Response int | ProbeRaised py_exception

definition health_url :: "ServiceInfo \<Rightarrow> string" where
  "health_url s = protocol s @ ''://'' @ host s @ '':'' @ str_int (port s) @ health_endpoint s"

text \<open>
  \<^verbatim>\<open>_check_service_health\<close> on one instance. \<open>http_get\<close> answers the probe of a URL;
  \<open>start_time\<close> and \<open>end_time\<close> are the two readings of \<^verbatim>\<open>time.time()\<close> around the
  request, \<open>stamp\<close> is \<^verbatim>\<open>datetime.now(timezone.utc)\<close>. An instance whose
  \<^verbatim>\<open>health_endpoint\<close> is empty is not probed at all.
\<close>

definition check_service_health ::
  "(string \<Rightarrow> probe_result) \<Rightarrow> pytime \<Rightarrow> pytime \<Rightarrow> pytime \<Rightarrow>
   ServiceInfo \<times> discovery_stats \<Rightarrow> ServiceInfo \<times> discovery_stats"
where
  "check_service_health http_get start_time end_time stamp st =
     (let service_info = fst st; stats = snd st in
      if health_endpoint service_info = [] then (service_info, stats)
      else
        (case http_get (health_url service_info) of
           Response status_code \<Rightarrow>
             (let rt = (end_time - start_time) * 1000;
                  info' = (if status_code = 200
                           then service_info\<lparr>health_status := ''healthy'',
                                              consecutive_failures := 0,
                                              response_time_ms := Some rt\<rparr>
                           else service_info\<lparr>health_status := ''degraded'',
                                              consecutive_failures :=
                                                consecutive_failures service_info + 1\<rparr>)
              in (info'\<lparr>last_health_check := Some stamp\<rparr>,
                  stats\<lparr>total_health_checks := total_health_checks stats + 1\<rparr>))
         | ProbeRaised e \<Rightarrow>
             (service_info\<lparr>health_status := ''unhealthy'',
                            consecutive_failures := consecutive_failures service_info + 1,
                            last_health_check := Some stamp\<rparr>,
              stats\<lparr>total_health_checks := total_health_checks stats + 1,
                     failed_health_checks := failed_health_checks stats + 1\<rparr>)))"

text \<open>
  The probe of the instance stored under an id, written back into the registry (the
  source mutates the object held by \<^verbatim>\<open>self.services\<close> in place).
\<close>

definition probe_registered ::
  "(string \<Rightarrow> probe_result) \<Rightarrow> pytime \<Rightarrow> pytime \<Rightarrow> pytime \<Rightarrow>
   ServiceDiscovery \<Rightarrow> string \<Rightarrow> ServiceDiscovery"
where
  "probe_registered http_get start_time end_time stamp self sid =
     (case map_of (services self) sid of
        None \<Rightarrow> self
      | Some service_info \<Rightarrow>
          (let r = check_service_health http_get start_time end_time stamp
                     (service_info, sd_stats self)
           in self\<lparr>services := AList.update sid (fst r) (services self), sd_stats := snd r\<rparr>))"


text \<open>
  The registry after a call of \<^verbatim>\<open>register_service\<close>: a call that raises leaves it as
  it was.
\<close>

definition registry_after_register ::
  "ServiceDiscovery \<Rightarrow> service_data \<Rightarrow> string \<Rightarrow> pytime \<Rightarrow> ServiceDiscovery"
where
  "registry_after_register self d uuid now =
     (case register_service self d uuid now of Inl e \<Rightarrow> self | Inr r \<Rightarrow> snd r)"

subsection \<open>Notions used to state the registry's properties\<close>

text \<open>
  A dict has one value per key, and \<^verbatim>\<open>register_service\<close> stores every instance under
  its own \<^verbatim>\<open>id\<close>.
\<close>

definition registry_wf :: "ServiceDiscovery \<Rightarrow> bool" where
  "registry_wf self =
     (distinct (map fst (services self)) \<and>
      list_all (\<lambda>kv. service_id (snd kv) = fst kv) (services self))"

text \<open>An instance matches a query: its name is the requested one and it has every requested tag.\<close>

definition matches :: "string \<Rightarrow> string list option \<Rightarrow> ServiceInfo \<Rightarrow> bool" where
  "matches nm tgs s =
     (name s = nm \<and> (case tgs of None \<Rightarrow> True | Some ts \<Rightarrow> set ts \<subseteq> set (tags s)))"

definition matching_services ::
  "ServiceDiscovery \<Rightarrow> string \<Rightarrow> string list option \<Rightarrow> ServiceInfo list"
where
  "matching_services self nm tgs = filter (matches nm tgs) (get_all_services self)"

text \<open>Recorded latencies compared, an instance with no recorded latency coming last.\<close>

fun recorded_le :: "real option \<Rightarrow> real option \<Rightarrow> bool" where
  "recorded_le (Some x) (Some y) = (x \<le> y)"
| "recorded_le _ None = True"
| "recorded_le None (Some y) = False"

subsection \<open>A registry with two healthy instances\<close>

text \<open>
  Two instances of the service \<^verbatim>\<open>A\<close> are registered under the ids \<^verbatim>\<open>a\<close> and \<^verbatim>\<open>b\<close>
  and probed once each. Both probes answer 200; the clock does not advance during the
  probe of \<^verbatim>\<open>a\<close> (recorded latency \<open>0.0\<close>) and advances by a hundredth of a second
  during the probe of \<^verbatim>\<open>b\<close> (recorded latency \<open>10.0\<close>).
\<close>

definition descriptor_A :: "string \<Rightarrow> int \<Rightarrow> service_data" where
  "descriptor_A sid prt =
     \<lparr>d_id = Some sid, d_name = Some ''A'', d_version = Some ''1.0'',
      d_host = Some ''localhost'', d_port = Some prt, d_protocol = None,
      d_health_endpoint = None, d_tags = None, d_dependencies = None, d_metadata = None\<rparr>"

definition two_instances :: ServiceDiscovery where
  "two_instances =
     registry_after_register
       (registry_after_register ServiceDiscovery_init (descriptor_A ''a'' 8001) ''u1'' 1)
       (descriptor_A ''b'' 8002) ''u2'' 2"

definition zero_latency_registry :: ServiceDiscovery where
  "zero_latency_registry =
     probe_registered (\<lambda>url. Response 200) 5 (5 + 1 / 100) 6
       (probe_registered (\<lambda>url. Response 200) 5 5 6 two_instances ''a'') ''b''"

subsection \<open>Three probes of one instance\<close>

text \<open>
  The instance \<^verbatim>\<open>a\<close> as registered above, probed three times in a row: a 200 after a
  quarter of a second, then a 503, then a request that times out.
\<close>

definition instance_a :: ServiceInfo where
  "instance_a =
     \<lparr>service_id = ''a'', name = ''A'', version = ''1.0'', host = ''localhost'',
      port = 8001, protocol = ''http'', health_endpoint = ''/health'', tags = [],
      dependencies = [], metadata = [], registered_at = 1,
      last_health_check = None, health_status = ''unknown'',
      consecutive_failures = 0, response_time_ms = None\<rparr>"

definition probe_ok :: "ServiceInfo \<times> discovery_stats" where
  "probe_ok =
     check_service_health (\<lambda>url. Response 200) 5 (5 + 1 / 4) 6
       (instance_a, sd_stats two_instances)"

definition probe_503 :: "ServiceInfo \<times> discovery_stats" where
  "probe_503 = check_service_health (\<lambda>url. Response 503) 7 8 9 probe_ok"

definition probe_timeout :: "ServiceInfo \<times> discovery_stats" where
  "probe_timeout =
     check_service_health (\<lambda>url. ProbeRaised (OtherException ''ReadTimeout'' [])) 10 40 41
       probe_503"

section \<open>Circuit breakers (\<^verbatim>\<open>circuit_breaker.py\<close>)\<close>

datatype CircuitBreakerState = CLOSED | OPEN | HALF_OPEN

text \<open>\<^verbatim>\<open>@dataclass CircuitBreakerStats\<close>; its field \<^verbatim>\<open>name\<close> is \<open>cb_name\<close> here.\<close>

record CircuitBreakerStats =
  cb_name :: string
  state :: CircuitBreakerState
  failure_count :: int
  success_count :: int
  total_calls :: int
  last_failure_time :: "pytime option"
  last_success_time :: "pytime option"
  recovery_timeout :: int
  failure_threshold :: int
  success_threshold :: int
  call_timeout :: int
  created_at :: pytime

subsection \<open>The wrapped breaker\<close>

text \<open>
  Modelled from the spec: the class \<^verbatim>\<open>BaseCircuitBreaker\<close> (imported from the package
  \<^verbatim>\<open>circuitbreaker\<close>) is not part of the repository. The manager uses its constructor,
  \<^verbatim>\<open>add_listener\<close>, \<^verbatim>\<open>current_state\<close>, the call \<^verbatim>\<open>circuit_breaker(func)(...)\<close> and the
  attributes \<^verbatim>\<open>_failure_count\<close>, \<^verbatim>\<open>_last_failure\<close> and \<^verbatim>\<open>_state\<close>. Its behaviour is
  the state machine of the specification:
  \<^item> closed (initial): calls pass through; each failure increments the failure count; when
    the count reaches the failure threshold the breaker opens;
  \<^item> open: calls are rejected without invoking the wrapped operation; once the recovery
    timeout has elapsed since the last failure the breaker is half-open;
  \<^item> half-open: a trial call is let through; a success closes the breaker and resets the
    failure count; a failure opens it again and restarts the recovery timer.
  An exception of the wrapped operation is raised again unchanged. Every transition
  notifies the listener registered for it.
\<close>

record BaseCircuitBreaker =
  b_failure_threshold :: int
  b_recovery_timeout :: int
  b_state :: string
  b_failure_count :: int
  b_last_failure :: "pytime option"

text \<open>
  Modelled from the spec: the transitions that the breaker announces to its listeners
  (to open, to closed, to half-open), and the breaker that the constructor
  \<^verbatim>\<open>BaseCircuitBreaker(failure_threshold=..., recovery_timeout=...)\<close> builds.
\<close>

datatype breaker_event = Opened | Closed | HalfOpened

definition BaseCircuitBreaker_init :: "int \<Rightarrow> int \<Rightarrow> BaseCircuitBreaker" where
  "BaseCircuitBreaker_init threshold timeout =
     \<lparr>b_failure_threshold = threshold, b_recovery_timeout = timeout,
      b_state = ''closed'', b_failure_count = 0, b_last_failure = None\<rparr>"

text \<open>Modelled from the spec: the recovery timeout has elapsed since the last failure.\<close>

definition recovery_elapsed :: "BaseCircuitBreaker \<Rightarrow> pytime \<Rightarrow> bool" where
  "recovery_elapsed b now =
     (case b_last_failure b of
        None \<Rightarrow> False
      | Some t \<Rightarrow> real_of_int (b_recovery_timeout b) \<le> now - t)"

text \<open>
  Modelled from the spec: the transition from open to half-open, taken when the breaker
  is consulted at time \<open>now\<close>. The result is the breaker and the listeners to notify.
\<close>

definition breaker_refresh ::
  "BaseCircuitBreaker \<Rightarrow> pytime \<Rightarrow> BaseCircuitBreaker \<times> breaker_event list"
where
  "breaker_refresh b now =
     (if b_state b = ''open'' \<and> recovery_elapsed b now
      then (b\<lparr>b_state := ''half_open''\<rparr>, [HalfOpened])
      else (b, []))"

text \<open>Modelled from the spec: the property \<^verbatim>\<open>current_state\<close> read at time \<open>now\<close>.\<close>

definition current_state :: "BaseCircuitBreaker \<Rightarrow> pytime \<Rightarrow> string" where
  "current_state b now = b_state (fst (breaker_refresh b now))"

text \<open>
  Modelled from the spec: the bookkeeping of the breaker after a call that went through,
  \<open>failed\<close> telling whether the wrapped operation raised.
\<close>

definition breaker_record ::
  "BaseCircuitBreaker \<Rightarrow> bool \<Rightarrow> pytime \<Rightarrow> BaseCircuitBreaker \<times> breaker_event list"
where
  "breaker_record b failed now =
     (if b_state b = ''half_open''
      then (if failed
            then (b\<lparr>b_state := ''open'', b_last_failure := Some now\<rparr>, [Opened])
            else (b\<lparr>b_state := ''closed'', b_failure_count := 0\<rparr>, [Closed]))
      else (if failed
            then (let b' = b\<lparr>b_failure_count := b_failure_count b + 1,
                               b_last_failure := Some now\<rparr>
                  in if b_failure_threshold b' \<le> b_failure_count b'
                     then (b'\<lparr>b_state := ''open''\<rparr>, [Opened])
                     else (b', []))
            else (b, [])))"

text \<open>
  An operation handed to the breaker: it runs in some world \<open>'w\<close> (everything outside
  the manager that the operation can read or change), and it returns a value or raises.
  An operation that is not invoked leaves the world as it is.
\<close>

type_synonym ('w, 'r) operation = "'w \<Rightarrow> (py_exception + 'r) \<times> 'w"

text \<open>
  Modelled from the spec: the call \<^verbatim>\<open>circuit_breaker(func)(*args, **kwargs)\<close> at time
  \<open>now\<close>. An open breaker rejects the call with its own error and does not invoke
  \<open>func\<close>.
\<close>

definition breaker_call ::
  "BaseCircuitBreaker \<Rightarrow> ('w, 'r) operation \<Rightarrow> pytime \<Rightarrow> 'w \<Rightarrow>
   (py_exception + 'r) \<times> BaseCircuitBreaker \<times> breaker_event list \<times> 'w"
where
  "breaker_call b func now w =
     (let b1 = fst (breaker_refresh b now); ev1 = snd (breaker_refresh b now) in
      if b_state b1 = ''open''
      then (Inl (OtherException ''CircuitBreakerError'' ''circuit breaker is open''), b1, ev1, w)
      else (let r = fst (func w); w' = snd (func w);
                b2 = fst (breaker_record b1 (isl r) now);
                ev2 = snd (breaker_record b1 (isl r) now)
            in (r, b2, ev1 @ ev2, w')))"

subsection \<open>The manager\<close>

text \<open>\<^verbatim>\<open>settings.circuit_breaker_config\<close> with the defaults of \<^verbatim>\<open>config.py\<close>.\<close>

record breaker_config =
  cfg_failure_threshold :: int
  cfg_recovery_timeout :: int

definition settings_circuit_breaker_config :: breaker_config where
  "settings_circuit_breaker_config = \<lparr>cfg_failure_threshold = 5, cfg_recovery_timeout = 60\<rparr>"

record CircuitBreakerManager =
  circuit_breakers :: "string \<rightharpoonup> BaseCircuitBreaker"
  cb_stats :: "string \<rightharpoonup> CircuitBreakerStats"
  default_config :: breaker_config

definition CircuitBreakerManager_init :: CircuitBreakerManager where
  "CircuitBreakerManager_init =
     \<lparr>circuit_breakers = Map.empty, cb_stats = Map.empty,
      default_config = settings_circuit_breaker_config\<rparr>"

text \<open>\<^verbatim>\<open>x or dflt\<close> for an optional integer: \<^verbatim>\<open>None\<close> and \<open>0\<close> are falsy.\<close>

definition int_or :: "int option \<Rightarrow> int \<Rightarrow> int" where
  "int_or x dflt = (case x of None \<Rightarrow> dflt | Some v \<Rightarrow> if v = 0 then dflt else v)"

text \<open>
  \<^verbatim>\<open>get_or_create_circuit_breaker\<close>: the manager afterwards (the breaker is then
  \<open>circuit_breakers self name\<close>). \<open>now\<close> is \<^verbatim>\<open>time.time()\<close>, the default of
  \<^verbatim>\<open>created_at\<close>.
\<close>

definition get_or_create_circuit_breaker ::
  "CircuitBreakerManager \<Rightarrow> string \<Rightarrow> int option \<Rightarrow> int option \<Rightarrow> pytime \<Rightarrow> CircuitBreakerManager"
where
  "get_or_create_circuit_breaker self nm failure_threshold' recovery_timeout' now =
     (if nm \<notin> dom (circuit_breakers self)
      then (let ft = int_or failure_threshold' (cfg_failure_threshold (default_config self));
                rt = int_or recovery_timeout' (cfg_recovery_timeout (default_config self))
            in self\<lparr>circuit_breakers := (circuit_breakers self)(nm \<mapsto> BaseCircuitBreaker_init ft rt),
                    cb_stats := (cb_stats self)(nm \<mapsto>
                      \<lparr>cb_name = nm, state = CLOSED, failure_count = 0, success_count = 0,
                       total_calls = 0, last_failure_time = None, last_success_time = None,
                       recovery_timeout = rt, failure_threshold = ft, success_threshold = 3,
                       call_timeout = 30, created_at = now\<rparr>)\<rparr>)
      else self)"

text \<open>
  A change of the statistics of one breaker, guarded as in the source by
  \<^verbatim>\<open>if name in self.stats\<close>.
\<close>

definition update_stats ::
  "string \<Rightarrow> (CircuitBreakerStats \<Rightarrow> CircuitBreakerStats) \<Rightarrow> CircuitBreakerManager \<Rightarrow> CircuitBreakerManager"
where
  "update_stats nm f self =
     (case cb_stats self nm of
        None \<Rightarrow> self
      | Some s \<Rightarrow> self\<lparr>cb_stats := (cb_stats self)(nm \<mapsto> f s)\<rparr>)"

text \<open>
  The three listeners \<^verbatim>\<open>_on_circuit_breaker_open\<close>, \<^verbatim>\<open>_on_circuit_breaker_close\<close> and
  \<^verbatim>\<open>_on_circuit_breaker_half_open\<close>, run at time \<open>now\<close>.
\<close>

fun on_event :: "string \<Rightarrow> pytime \<Rightarrow> breaker_event \<Rightarrow> CircuitBreakerManager \<Rightarrow> CircuitBreakerManager" where
  "on_event nm now Opened self =
     update_stats nm (\<lambda>s. s\<lparr>state := OPEN, last_failure_time := Some now\<rparr>) self"
| "on_event nm now Closed self =
     update_stats nm (\<lambda>s. s\<lparr>state := CLOSED, last_success_time := Some now\<rparr>) self"
| "on_event nm now HalfOpened self =
     update_stats nm (\<lambda>s. s\<lparr>state := HALF_OPEN\<rparr>) self"

definition notify :: "string \<Rightarrow> pytime \<Rightarrow> breaker_event list \<Rightarrow> CircuitBreakerManager \<Rightarrow> CircuitBreakerManager" where
  "notify nm now evs self = fold (on_event nm now) evs self"

text \<open>The breaker object is shared: what a call does to it is seen through the manager.\<close>

definition store_breaker :: "string \<Rightarrow> BaseCircuitBreaker \<Rightarrow> CircuitBreakerManager \<Rightarrow> CircuitBreakerManager" where
  "store_breaker nm b self = self\<lparr>circuit_breakers := (circuit_breakers self)(nm \<mapsto> b)\<rparr>"

text \<open>
  The two handlers of \<^verbatim>\<open>call_with_circuit_breaker\<close>: \<^verbatim>\<open>except CircuitBreakerOpenError: raise\<close>
  comes first and passes the exception on; \<^verbatim>\<open>except Exception as e\<close> counts a failure
  and raises \<^verbatim>\<open>ExternalServiceError(name, str(e))\<close>.
\<close>

fun is_circuit_open_error :: "py_exception \<Rightarrow> bool" where
  "is_circuit_open_error (CircuitBreakerOpenError _) = True"
| "is_circuit_open_error _ = False"

definition handle_exception ::
  "string \<Rightarrow> pytime \<Rightarrow> py_exception \<Rightarrow> CircuitBreakerManager \<Rightarrow> py_exception \<times> CircuitBreakerManager"
where
  "handle_exception nm now e self =
     (if is_circuit_open_error e then (e, self)
      else (ExternalServiceError nm (exc_str e),
            update_stats nm (\<lambda>s. s\<lparr>failure_count := failure_count s + 1,
                                    last_failure_time := Some now\<rparr>) self))"

text \<open>
  \<^verbatim>\<open>call_with_circuit_breaker(name, func, ...)\<close> at time \<open>now\<close> in world \<open>w\<close>: the value
  returned or the exception raised, the manager afterwards and the world afterwards.
\<close>

definition call_with_circuit_breaker ::
  "CircuitBreakerManager \<Rightarrow> string \<Rightarrow> ('w, 'r) operation \<Rightarrow> int option \<Rightarrow> int option \<Rightarrow>
   pytime \<Rightarrow> 'w \<Rightarrow> (py_exception + 'r) \<times> CircuitBreakerManager \<times> 'w"
where
  "call_with_circuit_breaker self nm func failure_threshold' recovery_timeout' now w =
     (let self1 = get_or_create_circuit_breaker self nm failure_threshold' recovery_timeout' now;
          self2 = update_stats nm (\<lambda>s. s\<lparr>total_calls := total_calls s + 1\<rparr>) self1
      in case circuit_breakers self2 nm of
           None \<Rightarrow> (Inl (KeyError nm), self2, w)
         | Some cb \<Rightarrow>
            (let cb1 = fst (breaker_refresh cb now);
                 self3 = notify nm now (snd (breaker_refresh cb now)) (store_breaker nm cb1 self2)
             in if current_state cb now = ''open''
                then (Inl (fst (handle_exception nm now (CircuitBreakerOpenError nm) self3)),
                      snd (handle_exception nm now (CircuitBreakerOpenError nm) self3), w)
                else
                  (case breaker_call cb1 func now w of
                     (r, cb2, evs, w') \<Rightarrow>
                       (let self4 = notify nm now evs (store_breaker nm cb2 self3)
                        in case r of
                             Inr v \<Rightarrow>
                               (Inr v,
                                update_stats nm (\<lambda>s. s\<lparr>success_count := success_count s + 1,
                                                        last_success_time := Some now\<rparr>) self4,
                                w')
                           | Inl e \<Rightarrow>
                               (Inl (fst (handle_exception nm now e self4)),
                                snd (handle_exception nm now e self4), w')))))"

text \<open>\<^verbatim>\<open>reset_circuit_breaker\<close> and \<^verbatim>\<open>get_circuit_breaker_state\<close>.\<close>

definition reset_circuit_breaker :: "CircuitBreakerManager \<Rightarrow> string \<Rightarrow> bool \<times> CircuitBreakerManager" where
  "reset_circuit_breaker self nm =
     (case circuit_breakers self nm of
        None \<Rightarrow> (False, self)
      | Some cb \<Rightarrow>
          (True,
           update_stats nm (\<lambda>s. s\<lparr>state := CLOSED, failure_count := 0, last_failure_time := None\<rparr>)
             (store_breaker nm
                (cb\<lparr>b_failure_count := 0, b_last_failure := None, b_state := ''closed''\<rparr>) self)))"

definition get_circuit_breaker_state :: "CircuitBreakerManager \<Rightarrow> string \<Rightarrow> CircuitBreakerState option" where
  "get_circuit_breaker_state self nm = map_option state (cb_stats self nm)"

definition get_circuit_breaker_stats :: "CircuitBreakerManager \<Rightarrow> string \<Rightarrow> CircuitBreakerStats option" where
  "get_circuit_breaker_stats self nm = cb_stats self nm"

subsection \<open>A breaker with threshold 3, run through a whole cycle\<close>

text \<open>
  The world of these runs counts the invocations of the wrapped operation. The breaker
  \<^verbatim>\<open>stt\<close> is created by the first call with \<^verbatim>\<open>failure_threshold=3\<close> and
  \<^verbatim>\<open>recovery_timeout=30\<close>; three calls fail at times 100, 101 and 102, a fourth call is
  made at time 103, and a call at time 132 succeeds.
\<close>

definition failing_op :: "string \<Rightarrow> (nat, string) operation" where
  "failing_op msg w = (Inl (OtherException ''ConnectError'' msg), Suc w)"

definition succeeding_op :: "string \<Rightarrow> (nat, string) operation" where
  "succeeding_op v w = (Inr v, Suc w)"

type_synonym breaker_run = "(py_exception + string) \<times> CircuitBreakerManager \<times> nat"

definition next_call :: "breaker_run \<Rightarrow> (nat, string) operation \<Rightarrow> pytime \<Rightarrow> breaker_run" where
  "next_call prev func now =
     call_with_circuit_breaker (fst (snd prev)) ''stt'' func (Some 3) (Some 30) now (snd (snd prev))"

definition run1 :: breaker_run where
  "run1 = call_with_circuit_breaker CircuitBreakerManager_init ''stt'' (failing_op ''down'')
            (Some 3) (Some 30) 100 0"

definition run2 :: breaker_run where
  "run2 = next_call run1 (failing_op ''down'') 101"

definition run3 :: breaker_run where
  "run3 = next_call run2 (failing_op ''down'') 102"

definition run4 :: breaker_run where
  "run4 = next_call run3 (succeeding_op ''text'') 103"

definition run5 :: breaker_run where
  "run5 = next_call run4 (succeeding_op ''text'') 132"

text \<open>
  A call whose operation is itself refused by an open breaker further down and raises
  \<^verbatim>\<open>CircuitBreakerOpenError("inner")\<close>, on a new breaker \<^verbatim>\<open>outer\<close>.
\<close>

definition inner_open_op :: "(nat, string) operation" where
  "inner_open_op w = (Inl (CircuitBreakerOpenError ''inner''), Suc w)"

definition nested_run :: breaker_run where
  "nested_run = call_with_circuit_breaker CircuitBreakerManager_init ''outer'' inner_open_op
                  None None 100 0"

section \<open>The cache service and the rate limiter (\<^verbatim>\<open>cache_service.py\<close>, \<^verbatim>\<open>rate_limiter.py\<close>)\<close>

subsection \<open>String functions of Python\<close>

text \<open>\<^verbatim>\<open>s.split(sep)\<close> for a separator of one character.\<close>

fun split_acc :: "char \<Rightarrow> string \<Rightarrow> string \<Rightarrow> string list" where
  "split_acc sep acc [] = [rev acc]"
| "split_acc sep acc (c # cs) =
     (if c = sep then rev acc # split_acc sep [] cs else split_acc sep (c # acc) cs)"

definition py_split :: "char \<Rightarrow> string \<Rightarrow> string list" where
  "py_split sep s = split_acc sep [] s"

text \<open>\<^verbatim>\<open>s.replace(old, "")\<close> for a non-empty \<^verbatim>\<open>old\<close>: every occurrence, from the left.\<close>

function py_remove :: "string \<Rightarrow> string \<Rightarrow> string" where
  "py_remove old [] = []"
| "py_remove old (c # cs) =
     (if old \<noteq> [] \<and> take (length old) (c # cs) = old
      then py_remove old (drop (length old) (c # cs))
      else c # py_remove old cs)"
  by pat_completeness auto
termination
  by (relation "measure (\<lambda>(old, s). length s)") (auto simp: neq_Nil_conv)

text \<open>
  \<^verbatim>\<open>int(s)\<close> of a string whose characters are code points below 256: surrounding
  white space is dropped, a sign may come first, then decimal digits, where single
  underscores may stand between digits. Anything else raises \<^verbatim>\<open>ValueError\<close>. Among
  these code points the white space of \<^verbatim>\<open>int\<close> is the space, the characters 9 to 13,
  and the characters 0x85 and 0xA0; the digits are \<^verbatim>\<open>0\<close> to \<^verbatim>\<open>9\<close>.
\<close>

definition is_space :: "char \<Rightarrow> bool" where
  "is_space c =
     (c \<in> set [CHR '' '', CHR 0x09, CHR 0x0A, CHR 0x0B, CHR 0x0C, CHR 0x0D, CHR 0x85, CHR 0xA0])"

definition py_strip :: "string \<Rightarrow> string" where
  "py_strip s = rev (dropWhile is_space (rev (dropWhile is_space s)))"

definition digit_val :: "char \<Rightarrow> nat option" where
  "digit_val c =
     (if c = CHR ''0'' then Some 0 else if c = CHR ''1'' then Some 1
      else if c = CHR ''2'' then Some 2 else if c = CHR ''3'' then Some 3
      else if c = CHR ''4'' then Some 4 else if c = CHR ''5'' then Some 5
      else if c = CHR ''6'' then Some 6 else if c = CHR ''7'' then Some 7
      else if c = CHR ''8'' then Some 8 else if c = CHR ''9'' then Some 9
      else None)"

fun digits_value :: "nat \<Rightarrow> string \<Rightarrow> nat option" where
  "digits_value acc [] = Some acc"
| "digits_value acc (c # cs) =
     (case digit_val c of
        Some d \<Rightarrow> digits_value (acc * 10 + d) cs
      | None \<Rightarrow>
          (if c = CHR ''_'' \<and> cs \<noteq> [] \<and> digit_val (hd cs) \<noteq> None
           then digits_value acc cs else None))"

definition unsigned_value :: "string \<Rightarrow> nat option" where
  "unsigned_value s =
     (case s of
        [] \<Rightarrow> None
      | c # cs \<Rightarrow> if digit_val c = None then None else digits_value 0 (c # cs))"

text \<open>The message quotes the string (Python prints its \<^verbatim>\<open>repr\<close>).\<close>

definition int_literal_error :: "string \<Rightarrow> py_exception" where
  "int_literal_error s =
     ValueError (''invalid literal for int() with base 10: '' @ [CHR 0x27] @ s @ [CHR 0x27])"

text \<open>
  The application runs on Python 3.11 or later (\<^verbatim>\<open>"python_version": "3.11+"\<close> in
  \<^verbatim>\<open>main.py\<close>), where \<^verbatim>\<open>int\<close> refuses a literal of more than 4300 digits
  (\<^verbatim>\<open>sys.int_max_str_digits\<close>, which the application does not change).
\<close>

definition int_max_str_digits :: nat where
  "int_max_str_digits = 4300"

definition int_digits_error :: "nat \<Rightarrow> py_exception" where
  "int_digits_error n =
     ValueError (''Exceeds the limit ('' @ str_nat int_max_str_digits
                 @ '' digits) for integer string conversion: value has '' @ str_nat n
                 @ '' digits; use sys.set_int_max_str_digits() to increase the limit'')"

definition numeric_char :: "char \<Rightarrow> bool" where
  "numeric_char c = (digit_val c \<noteq> None \<or> c = CHR ''_'')"

text \<open>
  After the white space and the sign, \<^verbatim>\<open>int\<close> scans the run of digits and underscores.
  A run that is empty or has an underscore out of place is an invalid literal; then the
  digits of the run are counted against the bound; then anything left after the run is
  an invalid literal.
\<close>

definition py_int :: "string \<Rightarrow> py_exception + int" where
  "py_int s =
     (let t = py_strip s;
          neg = (t \<noteq> [] \<and> hd t = CHR ''-'');
          body = (if t \<noteq> [] \<and> (hd t = CHR ''-'' \<or> hd t = CHR ''+'') then tl t else t);
          run = takeWhile numeric_char body;
          digits = length (filter (\<lambda>c. digit_val c \<noteq> None) run)
      in case unsigned_value run of
           None \<Rightarrow> Inl (int_literal_error s)
         | Some n \<Rightarrow>
             if int_max_str_digits < digits then Inl (int_digits_error digits)
             else if dropWhile numeric_char body \<noteq> [] then Inl (int_literal_error s)
             else Inr (if neg then - int n else int n))"

subsection \<open>The key-value store as the rate limiter sees it\<close>

text \<open>
  The rate limiter calls \<^verbatim>\<open>cache_service.get\<close>, \<^verbatim>\<open>cache_service.increment\<close> and
  \<^verbatim>\<open>cache_service.set\<close>. A store is given by these three operations on a store state
  \<open>'s\<close>, at the time of the call; each returns a result or raises, and leaves a new store
  state. The values kept under rate-limit keys are integers.
\<close>

record 's cache_ops =
  op_get :: "string \<Rightarrow> pytime \<Rightarrow> 's \<Rightarrow> (py_exception + int option) \<times> 's"
  op_increment :: "string \<Rightarrow> int \<Rightarrow> pytime \<Rightarrow> 's \<Rightarrow> (py_exception + int option) \<times> 's"
  op_set :: "string \<Rightarrow> int \<Rightarrow> int option \<Rightarrow> pytime \<Rightarrow> 's \<Rightarrow> (py_exception + bool) \<times> 's"

subsection \<open>\<^verbatim>\<open>CacheService\<close> on its in-memory cache\<close>

text \<open>
  \<^verbatim>\<open>class CacheService\<close> with \<^verbatim>\<open>self.connected = False\<close>: every method takes the branch
  of the in-memory cache. (With \<^verbatim>\<open>connected = True\<close> the methods delegate to a Redis
  server, which is outside the repository.) An entry of \<^verbatim>\<open>in_memory_cache\<close> is the dict
  \<^verbatim>\<open>{"value": ..., "expires_at": ...}\<close>.
\<close>

record cache_entry =
  entry_value :: int
  expires_at :: pytime

record cache_counters =
  hits :: int
  misses :: int
  sets :: int
  deletes :: int
  errors :: int
  fallback_hits :: int

record CacheService =
  in_memory_cache :: "(string \<times> cache_entry) list"
  cache_stats :: cache_counters

definition CacheService_init :: CacheService where
  "CacheService_init =
     \<lparr>in_memory_cache = [],
      cache_stats = \<lparr>hits = 0, misses = 0, sets = 0, deletes = 0, errors = 0, fallback_hits = 0\<rparr>\<rparr>"

text \<open>\<^verbatim>\<open>settings.CACHE_TTL\<close>, one hour by default.\<close>

definition CACHE_TTL :: int where
  "CACHE_TTL = 3600"

definition cache_get :: "string \<Rightarrow> pytime \<Rightarrow> CacheService \<Rightarrow> int option \<times> CacheService" where
  "cache_get k now self =
     (case map_of (in_memory_cache self) k of
        None \<Rightarrow>
          (None, self\<lparr>cache_stats := (cache_stats self)\<lparr>misses := misses (cache_stats self) + 1\<rparr>\<rparr>)
      | Some e \<Rightarrow>
          if now < expires_at e
          then (Some (entry_value e),
                self\<lparr>cache_stats := (cache_stats self)
                        \<lparr>fallback_hits := fallback_hits (cache_stats self) + 1\<rparr>\<rparr>)
          else (None,
                self\<lparr>in_memory_cache := AList.delete k (in_memory_cache self),
                     cache_stats := (cache_stats self)\<lparr>misses := misses (cache_stats self) + 1\<rparr>\<rparr>))"

text \<open>\<^verbatim>\<open>_cleanup_memory_cache\<close>: the entries that have expired are deleted.\<close>

definition cleanup_memory_cache :: "pytime \<Rightarrow> CacheService \<Rightarrow> CacheService" where
  "cleanup_memory_cache now self =
     self\<lparr>in_memory_cache := filter (\<lambda>kv. now < expires_at (snd kv)) (in_memory_cache self)\<rparr>"

definition cache_set :: "string \<Rightarrow> int \<Rightarrow> int option \<Rightarrow> pytime \<Rightarrow> CacheService \<Rightarrow> bool \<times> CacheService" where
  "cache_set k v ttl now self =
     (let ttl' = int_or ttl CACHE_TTL;
          self1 = self\<lparr>in_memory_cache :=
                         AList.update k \<lparr>entry_value = v, expires_at = now + real_of_int ttl'\<rparr>
                           (in_memory_cache self),
                       cache_stats := (cache_stats self)\<lparr>sets := sets (cache_stats self) + 1\<rparr>\<rparr>
      in (True,
          if length (in_memory_cache self1) mod 100 = 0 then cleanup_memory_cache now self1
          else self1))"

definition cache_increment :: "string \<Rightarrow> int \<Rightarrow> pytime \<Rightarrow> CacheService \<Rightarrow> int option \<times> CacheService" where
  "cache_increment k amount now self =
     (let current = (case fst (cache_get k now self) of None \<Rightarrow> 0 | Some c \<Rightarrow> c);
          new_value = current + amount
      in (Some new_value, snd (cache_set k new_value None now (snd (cache_get k now self)))))"

text \<open>The global \<^verbatim>\<open>cache_service\<close>, as a store: none of its in-memory operations raises.\<close>

definition cache_service :: "CacheService cache_ops" where
  "cache_service =
     \<lparr>op_get = (\<lambda>k now s. (Inr (fst (cache_get k now s)), snd (cache_get k now s))),
      op_increment = (\<lambda>k amount now s.
         (Inr (fst (cache_increment k amount now s)), snd (cache_increment k amount now s))),
      op_set = (\<lambda>k v ttl now s.
         (Inr (fst (cache_set k v ttl now s)), snd (cache_set k v ttl now s)))\<rparr>"

subsection \<open>The rate limiter\<close>

text \<open>
  The first lines of \<^verbatim>\<open>_sliding_window_check\<close>: the limit is split at \<^verbatim>\<open>/\<close>; a limit
  that does not have two parts gives \<open>None\<close> (the check then admits at once); otherwise
  the result is \<^verbatim>\<open>(max_requests, window_seconds)\<close>, or the \<^verbatim>\<open>ValueError\<close> of \<^verbatim>\<open>int\<close>.
\<close>

definition parse_limit :: "string \<Rightarrow> py_exception + (int \<times> int) option" where
  "parse_limit limit =
     (let parts = py_split CHR ''/'' limit in
      if length parts \<noteq> 2 then Inr None
      else
        (case py_int (parts ! 0) of
           Inl e \<Rightarrow> Inl e
         | Inr max_requests \<Rightarrow>
             (case py_int (py_remove ''second'' (py_remove ''seconds'' (parts ! 1))) of
                Inl e \<Rightarrow> Inl e
              | Inr window_seconds \<Rightarrow> Inr (Some (max_requests, window_seconds)))))"

text \<open>
  The key \<^verbatim>\<open>f"rate_limit:{client_id}:{window_start // window_seconds}"\<close> with
  \<^verbatim>\<open>window_start = current_time - window_seconds\<close>.
\<close>

definition rate_limit_key :: "string \<Rightarrow> int \<Rightarrow> int \<Rightarrow> string" where
  "rate_limit_key client_id current_time window_seconds =
     ''rate_limit:'' @ client_id @ '':'' @
       str_int ((current_time - window_seconds) div window_seconds)"

text \<open>
  The body of the \<^verbatim>\<open>try\<close> of \<^verbatim>\<open>_sliding_window_check\<close> after the parse. The exception,
  if any, comes with the store as it is when the exception is raised.
\<close>

definition window_check ::
  "'s cache_ops \<Rightarrow> string \<Rightarrow> int \<Rightarrow> int \<Rightarrow> pytime \<Rightarrow> 's \<Rightarrow> (py_exception + bool \<times> int) \<times> 's"
where
  "window_check store client_id max_requests window_seconds now s =
     (let current_time = int_of_float now in
      if window_seconds = 0 then (Inl ZeroDivisionError, s)
      else
        (let k = rate_limit_key client_id current_time window_seconds;
             g = op_get store k now s
         in case fst g of
              Inl e \<Rightarrow> (Inl e, snd g)
            | Inr cached \<Rightarrow>
                (let current_count = (case cached of None \<Rightarrow> 0 | Some c \<Rightarrow> c) in
                 if max_requests \<le> current_count
                 then (Inr (False, window_seconds - current_time mod window_seconds), snd g)
                 else
                   (let i = op_increment store k 1 now (snd g) in
                    case fst i of
                      Inl e \<Rightarrow> (Inl e, snd i)
                    | Inr _ \<Rightarrow>
                        if current_count = 0
                        then (let t = op_set store k 1 (Some window_seconds) now (snd i) in
                              case fst t of
                                Inl e \<Rightarrow> (Inl e, snd t)
                              | Inr _ \<Rightarrow> (Inr (True, 0), snd t))
                        else (Inr (True, 0), snd i)))))"

text \<open>
  \<^verbatim>\<open>_sliding_window_check(client_id, limit)\<close> at time \<open>now\<close>: the pair
  \<^verbatim>\<open>(is_allowed, retry_after)\<close> and the store afterwards. The handler
  \<^verbatim>\<open>except Exception\<close> returns \<^verbatim>\<open>(True, 0)\<close>.
\<close>

definition sliding_window_check ::
  "'s cache_ops \<Rightarrow> string \<Rightarrow> string \<Rightarrow> pytime \<Rightarrow> 's \<Rightarrow> (bool \<times> int) \<times> 's"
where
  "sliding_window_check store client_id limit now s =
     (case parse_limit limit of
        Inl e \<Rightarrow> ((True, 0), s)
      | Inr None \<Rightarrow> ((True, 0), s)
      | Inr (Some mw) \<Rightarrow>
          (let r = window_check store client_id (fst mw) (snd mw) now s in
           case fst r of
             Inl e \<Rightarrow> ((True, 0), snd r)
           | Inr res \<Rightarrow> (res, snd r)))"

text \<open>The process-local bookkeeping of \<^verbatim>\<open>class RateLimiter\<close>.\<close>

record limiter_stats =
  total_requests :: int
  blocked_requests :: int
  unique_clients :: "string set"
  rate_limit_hits :: int

record client_record =
  requests :: int
  blocked :: int
  first_seen :: int
  last_seen :: int

record RateLimiter =
  rl_stats :: limiter_stats
  client_stats :: "string \<rightharpoonup> client_record"

definition RateLimiter_init :: RateLimiter where
  "RateLimiter_init =
     \<lparr>rl_stats = \<lparr>total_requests = 0, blocked_requests = 0, unique_clients = {},
                  rate_limit_hits = 0\<rparr>,
      client_stats = Map.empty\<rparr>"

text \<open>What the limiter reads of the \<^verbatim>\<open>Request\<close>.\<close>

record Request =
  remote_address :: string
  user_agent :: string
  url_path :: string

text \<open>The dict returned with a refusal; \<open>None\<close> is the empty dict returned otherwise.\<close>

record limit_info =
  info_error :: string
  info_retry_after :: int
  info_limit :: string
  info_client_id :: string

text \<open>\<^verbatim>\<open>settings.RATE_LIMIT_REQUESTS\<close> and \<^verbatim>\<open>settings.RATE_LIMIT_WINDOW\<close>.\<close>

definition default_limit :: string where
  "default_limit = str_int 100 @ ''/'' @ str_int 60 @ ''seconds''"

text \<open>
  \<^verbatim>\<open>check_rate_limit(request, limit, key_func)\<close> at time \<open>now\<close>. \<open>key_func\<close>, when
  given, returns the client identity or raises. The result is the pair returned, the
  limiter afterwards and the store afterwards. The handler \<^verbatim>\<open>except Exception\<close> returns
  \<^verbatim>\<open>(True, {})\<close>; what was written before the exception stays written.
\<close>

definition check_rate_limit ::
  "'s cache_ops \<Rightarrow> RateLimiter \<Rightarrow> Request \<Rightarrow> string option \<Rightarrow>
   (Request \<Rightarrow> py_exception + string) option \<Rightarrow> pytime \<Rightarrow> 's \<Rightarrow>
   (bool \<times> limit_info option) \<times> RateLimiter \<times> 's"
where
  "check_rate_limit store self request limit key_func now s =
     (case (case key_func of None \<Rightarrow> Inr (remote_address request) | Some f \<Rightarrow> f request) of
        Inl e \<Rightarrow> ((True, None), self, s)
      | Inr client_id \<Rightarrow>
          (let st1 = (rl_stats self)\<lparr>total_requests := total_requests (rl_stats self) + 1,
                                     unique_clients := insert client_id (unique_clients (rl_stats self))\<rparr>;
               old = (case client_stats self client_id of
                        None \<Rightarrow> \<lparr>requests = 0, blocked = 0, first_seen = int_of_float now,
                                 last_seen = int_of_float now\<rparr>
                      | Some c \<Rightarrow> c);
               rec1 = old\<lparr>requests := requests old + 1, last_seen := int_of_float now\<rparr>;
               limit' = (case limit of None \<Rightarrow> default_limit
                         | Some l \<Rightarrow> if l = [] then default_limit else l);
               r = sliding_window_check store client_id limit' now s
           in if \<not> fst (fst r)
              then ((False, Some \<lparr>info_error = ''Rate limit exceeded'',
                                  info_retry_after = snd (fst r),
                                  info_limit = limit', info_client_id = client_id\<rparr>),
                    \<lparr>rl_stats = st1\<lparr>blocked_requests := blocked_requests st1 + 1,
                                     rate_limit_hits := rate_limit_hits st1 + 1\<rparr>,
                     client_stats = (client_stats self)(client_id \<mapsto> rec1\<lparr>blocked := blocked rec1 + 1\<rparr>)\<rparr>,
                    snd r)
              else ((True, None),
                    \<lparr>rl_stats = st1, client_stats = (client_stats self)(client_id \<mapsto> rec1)\<rparr>,
                    snd r)))"

subsection \<open>A store that records the calls made on it\<close>

text \<open>
  To say which keys a check touches, a store is run under a recorder: the store state is
  paired with the list of the calls made so far, each with the flag whether it raised.
\<close>

datatype store_call =
    GetCall string
  | IncrementCall string int
  | SetCall string int "int option"

fun call_key :: "store_call \<Rightarrow> string" where
  "call_key (GetCall k) = k"
| "call_key (IncrementCall k amount) = k"
| "call_key (SetCall k v ttl) = k"

definition recorded :: "'s cache_ops \<Rightarrow> ('s \<times> (store_call \<times> bool) list) cache_ops" where
  "recorded store =
     \<lparr>op_get = (\<lambda>k now sl.
         (fst (op_get store k now (fst sl)),
          (snd (op_get store k now (fst sl)),
           snd sl @ [(GetCall k, isl (fst (op_get store k now (fst sl))))]))),
      op_increment = (\<lambda>k amount now sl.
         (fst (op_increment store k amount now (fst sl)),
          (snd (op_increment store k amount now (fst sl)),
           snd sl @ [(IncrementCall k amount, isl (fst (op_increment store k amount now (fst sl))))]))),
      op_set = (\<lambda>k v ttl now sl.
         (fst (op_set store k v ttl now (fst sl)),
          (snd (op_set store k v ttl now (fst sl)),
           snd sl @ [(SetCall k v ttl, isl (fst (op_set store k v ttl now (fst sl))))])))\<rparr>"

text \<open>A store whose Redis connection is down on every call (\<^verbatim>\<open>ConnectionError\<close>).\<close>

definition failing_store :: "unit cache_ops" where
  "failing_store =
     \<lparr>op_get = (\<lambda>k now s. (Inl (OtherException ''ConnectionError'' ''connection refused''), s)),
      op_increment = (\<lambda>k amount now s. (Inl (OtherException ''ConnectionError'' ''connection refused''), s)),
      op_set = (\<lambda>k v ttl now s. (Inl (OtherException ''ConnectionError'' ''connection refused''), s))\<rparr>"

subsection \<open>Notions used to state the limiter's properties\<close>

text \<open>
  The counter that the in-memory cache holds under a key at a time: the value of the
  entry, if there is one and it has not expired. It is what \<^verbatim>\<open>cache_service.get\<close>
  returns.
\<close>

definition live_count :: "CacheService \<Rightarrow> string \<Rightarrow> pytime \<Rightarrow> int option" where
  "live_count self k now =
     (case map_of (in_memory_cache self) k of
        None \<Rightarrow> None
      | Some e \<Rightarrow> if now < expires_at e then Some (entry_value e) else None)"


text \<open>The keys of the calls that a recorded run has made, and whether one of them raised.\<close>

definition keys_touched :: "(store_call \<times> bool) list \<Rightarrow> string list" where
  "keys_touched calls = map (\<lambda>c. call_key (fst c)) calls"

definition some_call_raised :: "(store_call \<times> bool) list \<Rightarrow> bool" where
  "some_call_raised calls = list_ex snd calls"

subsection \<open>Example requests\<close>

definition request_from :: "string \<Rightarrow> Request" where
  "request_from addr = \<lparr>remote_address = addr, user_agent = ''curl/8.0'', url_path = ''/api/v1/voice''\<rparr>"

text \<open>A check of the client \<^verbatim>\<open>c\<close> with the limit \<^verbatim>\<open>5/60seconds\<close> at time 60, on an empty cache.\<close>

definition check_at_60 :: "(bool \<times> int) \<times> CacheService \<times> (store_call \<times> bool) list" where
  "check_at_60 =
     sliding_window_check (recorded cache_service) ''c'' ''5/60seconds'' 60 (CacheService_init, [])"

text \<open>A check on the store whose connection is down.\<close>

definition check_on_failing_store ::
  "(bool \<times> limit_info option) \<times> RateLimiter \<times> unit \<times> (store_call \<times> bool) list" where
  "check_on_failing_store =
     check_rate_limit (recorded failing_store) RateLimiter_init (request_from ''10.0.0.1'')
       (Some ''5/60seconds'') None 125 ((), [])"










section \<open>The WebSocket manager (\<^verbatim>\<open>websocket_manager.py\<close>)\<close>

text \<open>A JSON value, and a message: the dict handed to \<^verbatim>\<open>send_message\<close>.\<close>

datatype json_value =
    JStr string
  | JNum real
  | JNone
  | JList "json_value list"
  | JDict "(string \<times> json_value) list"

type_synonym message = "(string \<times> json_value) list"

text \<open>
  What the manager reads of a \<^verbatim>\<open>WebSocket\<close> when it accepts it:
  \<^verbatim>\<open>websocket.client.host\<close> (absent when \<^verbatim>\<open>websocket.client\<close> is \<^verbatim>\<open>None\<close>) and the
  \<^verbatim>\<open>user-agent\<close> header (absent when the client sent none).
\<close>

record WebSocket =
  ws_client_host :: "string option"
  ws_user_agent :: "string option"

text \<open>\<^verbatim>\<open>class ConnectionInfo(BaseModel)\<close>; its field \<^verbatim>\<open>user_agent\<close> is \<open>conn_user_agent\<close> here.\<close>

record ConnectionInfo =
  connection_id :: string
  client_ip :: string
  conn_user_agent :: string
  connected_at :: pytime
  last_activity :: pytime
  message_count :: int
  user_id :: "string option"
  session_id :: "string option"

record connection_stats =
  total_connections :: int
  current_connections :: int
  messages_sent :: int
  messages_received :: int
  disconnections :: int
  ws_errors :: int

text \<open>
  \<^verbatim>\<open>class WebSocketManager\<close>. The two dicts that are iterated or counted
  (\<^verbatim>\<open>active_connections\<close>, \<^verbatim>\<open>connection_info\<close>) are association lists in insertion
  order; the two indexes map a user or a session to a set of connection ids. The
  handlers of \<^verbatim>\<open>message_handlers\<close> are coroutines; they are not part of the state
  here, and what they send is given with each turn of the receive loop.
\<close>

record WebSocketManager =
  active_connections :: "(string \<times> WebSocket) list"
  connection_info :: "(string \<times> ConnectionInfo) list"
  user_connections :: "string \<rightharpoonup> string set"
  session_connections :: "string \<rightharpoonup> string set"
  running :: bool
  ws_stats :: connection_stats

definition WebSocketManager_init :: WebSocketManager where
  "WebSocketManager_init =
     \<lparr>active_connections = [], connection_info = [],
      user_connections = Map.empty, session_connections = Map.empty, running = False,
      ws_stats = \<lparr>total_connections = 0, current_connections = 0, messages_sent = 0,
                  messages_received = 0, disconnections = 0, ws_errors = 0\<rparr>\<rparr>"

text \<open>\<^verbatim>\<open>initialize\<close>: sets \<^verbatim>\<open>running\<close> (and registers the default handlers).\<close>

definition initialize :: "WebSocketManager \<Rightarrow> WebSocketManager" where
  "initialize self = self\<lparr>running := True\<rparr>"

text \<open>
  The clean-up of one index in \<^verbatim>\<open>disconnect\<close>, for the user (or session) recorded in
  the connection's info: nothing when that is \<^verbatim>\<open>None\<close> or empty, or not a key of the
  index; otherwise the id is discarded from the set, and the set is deleted once empty.
\<close>

definition discard_from_index ::
  "string option \<Rightarrow> string \<Rightarrow> (string \<rightharpoonup> string set) \<Rightarrow> (string \<rightharpoonup> string set)"
where
  "discard_from_index owner cid index =
     (case owner of
        None \<Rightarrow> index
      | Some u \<Rightarrow>
          if u = [] then index
          else (case index u of
                  None \<Rightarrow> index
                | Some ids \<Rightarrow>
                    if ids - {cid} = {} then index(u := None)
                    else index(u \<mapsto> ids - {cid})))"

text \<open>
  \<^verbatim>\<open>disconnect(connection_id)\<close>. Whether \<^verbatim>\<open>websocket.close()\<close> raises does not matter:
  the exception is logged and the entry is deleted all the same.
\<close>

definition disconnect :: "WebSocketManager \<Rightarrow> string \<Rightarrow> WebSocketManager" where
  "disconnect self cid =
     (let self1 = (if cid \<in> fst ` set (active_connections self)
                   then self\<lparr>active_connections := AList.delete cid (active_connections self)\<rparr>
                   else self);
          self2 = (case map_of (connection_info self1) cid of
                     None \<Rightarrow> self1
                   | Some conn_info \<Rightarrow>
                       self1\<lparr>user_connections :=
                               discard_from_index (user_id conn_info) cid (user_connections self1),
                             session_connections :=
                               discard_from_index (session_id conn_info) cid
                                 (session_connections self1),
                             connection_info := AList.delete cid (connection_info self1)\<rparr>)
      in self2\<lparr>ws_stats := (ws_stats self2)
                  \<lparr>disconnections := disconnections (ws_stats self2) + 1,
                   current_connections := int (length (active_connections self2))\<rparr>\<rparr>)"

text \<open>\<^verbatim>\<open>if key not in message: message[key] = v\<close>.\<close>

definition set_default :: "string \<Rightarrow> json_value \<Rightarrow> message \<Rightarrow> message" where
  "set_default k v m = (if k \<in> fst ` set m then m else AList.update k v m)"

text \<open>
  \<^verbatim>\<open>send_message(connection_id, message, message_type)\<close>. \<open>send_ok\<close> tells whether
  \<^verbatim>\<open>websocket.send_text\<close> returns (or raises); \<open>now\<close> and \<open>uuid\<close> are the values of
  \<^verbatim>\<open>time.time()\<close> and \<^verbatim>\<open>str(uuid4())\<close>. The result is the value returned, the message
  dict as the call leaves it, and the manager afterwards.
\<close>

definition send_message ::
  "WebSocketManager \<Rightarrow> string \<Rightarrow> message \<Rightarrow> string option \<Rightarrow> bool \<Rightarrow> pytime \<Rightarrow> string \<Rightarrow>
   bool \<times> message \<times> WebSocketManager"
where
  "send_message self cid msg message_type send_ok now uuid =
     (if cid \<notin> fst ` set (active_connections self) then (False, msg, self)
      else
        (let ty = (case message_type of None \<Rightarrow> ''message''
                   | Some t \<Rightarrow> if t = [] then ''message'' else t);
             msg' = set_default ''message_id'' (JStr uuid)
                      (set_default ''timestamp'' (JNum now)
                        (set_default ''type'' (JStr ty) msg))
         in if send_ok
            then (True, msg',
                  self\<lparr>ws_stats := (ws_stats self)
                         \<lparr>messages_sent := messages_sent (ws_stats self) + 1\<rparr>\<rparr>)
            else (False, msg', disconnect self cid)))"

definition error_message :: "string \<Rightarrow> pytime \<Rightarrow> message" where
  "error_message text now =
     [(''type'', JStr ''error''),
      (''data'', JDict [(''error'', JStr text), (''timestamp'', JNum now)])]"

definition send_error ::
  "WebSocketManager \<Rightarrow> string \<Rightarrow> string \<Rightarrow> bool \<Rightarrow> pytime \<Rightarrow> string \<Rightarrow>
   bool \<times> message \<times> WebSocketManager"
where
  "send_error self cid text send_ok now uuid =
     send_message self cid (error_message text now) None send_ok now uuid"

text \<open>
  \<^verbatim>\<open>broadcast_message(message, exclude_connections)\<close>: the loop over the ids that are
  connected when the broadcast starts. \<open>wire\<close> tells for each connection whether a write
  goes through.
\<close>

fun broadcast_loop ::
  "string list \<Rightarrow> string set \<Rightarrow> (string \<Rightarrow> bool) \<Rightarrow> pytime \<Rightarrow> string \<Rightarrow>
   int \<times> message \<times> WebSocketManager \<Rightarrow> int \<times> message \<times> WebSocketManager"
where
  "broadcast_loop [] exclude wire now uuid acc = acc"
| "broadcast_loop (cid # cids) exclude wire now uuid (sent_count, msg, self) =
     (if cid \<notin> exclude
      then (case send_message self cid msg None (wire cid) now uuid of
              (ok, msg', self') \<Rightarrow>
                broadcast_loop cids exclude wire now uuid
                  (if ok then sent_count + 1 else sent_count, msg', self'))
      else broadcast_loop cids exclude wire now uuid (sent_count, msg, self))"

definition broadcast_message ::
  "WebSocketManager \<Rightarrow> message \<Rightarrow> string set option \<Rightarrow> (string \<Rightarrow> bool) \<Rightarrow> pytime \<Rightarrow> string \<Rightarrow>
   int \<times> message \<times> WebSocketManager"
where
  "broadcast_message self msg exclude_connections wire now uuid =
     broadcast_loop (map fst (active_connections self))
       (case exclude_connections of None \<Rightarrow> {} | Some ex \<Rightarrow> ex) wire now uuid (0, msg, self)"

text \<open>
  \<^verbatim>\<open>handle_connection(websocket)\<close> up to the receive loop. \<open>cid\<close> is the value of
  \<^verbatim>\<open>str(uuid4())\<close>; \<open>accept_ok\<close> tells whether \<^verbatim>\<open>websocket.accept()\<close> returns, and
  \<open>send_ok\<close> whether the welcome message can be written. An \<^verbatim>\<open>accept\<close> that raises is
  handled by \<^verbatim>\<open>disconnect(connection_id)\<close>.
\<close>

definition accept_connection ::
  "WebSocketManager \<Rightarrow> WebSocket \<Rightarrow> string \<Rightarrow> bool \<Rightarrow> bool \<Rightarrow> pytime \<Rightarrow> string \<Rightarrow> WebSocketManager"
where
  "accept_connection self websocket cid accept_ok send_ok now uuid =
     (if \<not> accept_ok then disconnect self cid
      else
        (let active' = AList.update cid websocket (active_connections self);
             info = \<lparr>connection_id = cid,
                     client_ip = dict_get_or (ws_client_host websocket) ''unknown'',
                     conn_user_agent = dict_get_or (ws_user_agent websocket) ''unknown'',
                     connected_at = now, last_activity = now, message_count = 0,
                     user_id = None, session_id = None\<rparr>;
             self1 = self\<lparr>active_connections := active',
                          connection_info := AList.update cid info (connection_info self),
                          ws_stats := (ws_stats self)
                            \<lparr>total_connections := total_connections (ws_stats self) + 1,
                             current_connections := int (length active')\<rparr>\<rparr>
         in snd (snd (send_message self1 cid
                        [(''type'', JStr ''connection_established''),
                         (''data'', JDict [(''connection_id'', JStr cid),
                                           (''server_time'', JNum now),
                                           (''features'', JList [JStr ''voice_input'',
                                              JStr ''text_input'', JStr ''real_time_responses''])])]
                        None send_ok now uuid))))"

text \<open>
  One turn of the receive loop \<^verbatim>\<open>_handle_messages\<close>. The text frame is malformed JSON,
  or JSON that is no \<^verbatim>\<open>WebSocketMessage\<close>, or a message with its type and data.
\<close>

datatype frame = InvalidJson | InvalidMessage | Frame string message

text \<open>
  The replies of one turn are written one after the other; \<open>oks\<close> tells for each write
  in turn whether it goes through (a write beyond the list goes through).
\<close>

fun send_each ::
  "WebSocketManager \<Rightarrow> string \<Rightarrow> message list \<Rightarrow> bool list \<Rightarrow> pytime \<Rightarrow> string \<Rightarrow> WebSocketManager"
where
  "send_each self cid [] oks now uuid = self"
| "send_each self cid (m # ms) oks now uuid =
     send_each
       (snd (snd (send_message self cid m None (case oks of [] \<Rightarrow> True | ok # _ \<Rightarrow> ok) now uuid)))
       cid ms (tl oks) now uuid"

text \<open>
  A malformed frame is answered with an error and counts for nothing. A message updates
  the activity of its connection and the counter of received messages, and goes to
  \<^verbatim>\<open>_process_message\<close>. Whatever happens there ends in calls of \<^verbatim>\<open>send_message\<close> to the
  connection of the message: the handlers of this module (\<^verbatim>\<open>_handle_ping\<close>,
  \<^verbatim>\<open>_handle_voice_input\<close>, \<^verbatim>\<open>_handle_text_input\<close>) send one or two answers, an unknown type
  and a handler that raises are answered with \<^verbatim>\<open>send_error\<close>. The messages sent,
  \<open>answers\<close>, are given with the turn.
\<close>

definition handle_frame ::
  "WebSocketManager \<Rightarrow> string \<Rightarrow> frame \<Rightarrow> message list \<Rightarrow> bool list \<Rightarrow> pytime \<Rightarrow> string \<Rightarrow>
   WebSocketManager"
where
  "handle_frame self cid fr answers oks now uuid =
     (case fr of
        InvalidJson \<Rightarrow> send_each self cid [error_message ''Invalid JSON format'' now] oks now uuid
      | InvalidMessage \<Rightarrow>
          send_each self cid [error_message ''Message processing error'' now] oks now uuid
      | Frame ty data \<Rightarrow>
          (let info' = (case map_of (connection_info self) cid of
                          None \<Rightarrow> connection_info self
                        | Some i \<Rightarrow>
                            AList.update cid
                              (i\<lparr>last_activity := now, message_count := message_count i + 1\<rparr>)
                              (connection_info self));
               self1 = self\<lparr>connection_info := info',
                            ws_stats := (ws_stats self)
                              \<lparr>messages_received := messages_received (ws_stats self) + 1\<rparr>\<rparr>
           in send_each self1 cid answers oks now uuid))"

text \<open>
  One turn of \<^verbatim>\<open>_cleanup_loop\<close>: the connections without activity for more than 300
  seconds are collected, then disconnected one by one.
\<close>

definition cleanup_sweep :: "WebSocketManager \<Rightarrow> pytime \<Rightarrow> WebSocketManager" where
  "cleanup_sweep self now =
     (let inactive_connections =
            map fst (filter (\<lambda>kv. 300 < now - last_activity (snd kv)) (connection_info self))
      in fold (\<lambda>cid s. disconnect s cid) inactive_connections self)"

text \<open>\<^verbatim>\<open>shutdown\<close>: every connection is disconnected.\<close>

definition shutdown :: "WebSocketManager \<Rightarrow> WebSocketManager" where
  "shutdown self =
     fold (\<lambda>cid s. disconnect s cid) (map fst (active_connections self)) (self\<lparr>running := False\<rparr>)"

subsection \<open>Runs of the manager\<close>

text \<open>
  The operations of the manager as events, with what the environment decides in each.
  A run is a list of events applied in order to the manager that \<^verbatim>\<open>__init__\<close> builds;
  the tasks of the event loop interleave at these operations.
\<close>

datatype ws_event =
    Initialize
  | Accept WebSocket string bool bool pytime string
  | Receive string frame "message list" "bool list" pytime string
  | Send string message "string option" bool pytime string
  | Broadcast message "string set option" "string \<Rightarrow> bool" pytime string
  | Disconnect string
  | Sweep pytime
  | Shutdown

fun ws_step :: "ws_event \<Rightarrow> WebSocketManager \<Rightarrow> WebSocketManager" where
  "ws_step Initialize self = initialize self"
| "ws_step (Accept websocket cid accept_ok send_ok now uuid) self =
     accept_connection self websocket cid accept_ok send_ok now uuid"
| "ws_step (Receive cid fr answers oks now uuid) self =
     handle_frame self cid fr answers oks now uuid"
| "ws_step (Send cid msg message_type send_ok now uuid) self =
     snd (snd (send_message self cid msg message_type send_ok now uuid))"
| "ws_step (Broadcast msg exclude wire now uuid) self =
     snd (snd (broadcast_message self msg exclude wire now uuid))"
| "ws_step (Disconnect cid) self = disconnect self cid"
| "ws_step (Sweep now) self = cleanup_sweep self now"
| "ws_step Shutdown self = shutdown self"

definition run_manager :: "ws_event list \<Rightarrow> WebSocketManager" where
  "run_manager evs = fold ws_step evs WebSocketManager_init"

subsection \<open>Notions used to state the manager's properties\<close>

text \<open>The connection ids held by the two indexes, and the ids of the primary tables.\<close>

definition indexed_ids :: "WebSocketManager \<Rightarrow> string set" where
  "indexed_ids self = \<Union> (ran (user_connections self)) \<union> \<Union> (ran (session_connections self))"

definition primary_ids :: "WebSocketManager \<Rightarrow> string set" where
  "primary_ids self = fst ` set (active_connections self) \<inter> fst ` set (connection_info self)"

text \<open>
  The indexes agree with the connection records: an id stands in the set of a user (or
  session) only if the connection is in both primary tables and its record names that
  user (or session); and each primary table has one entry per id.
\<close>

definition index_agrees ::
  "(ConnectionInfo \<Rightarrow> string option) \<Rightarrow> (string \<rightharpoonup> string set) \<Rightarrow> WebSocketManager \<Rightarrow> bool"
where
  "index_agrees owner index self =
     (\<forall>u ids cid. index u = Some ids \<and> cid \<in> ids \<longrightarrow>
        u \<noteq> [] \<and> cid \<in> fst ` set (active_connections self)
        \<and> (\<exists>i. map_of (connection_info self) cid = Some i \<and> owner i = Some u))"

definition consistent :: "WebSocketManager \<Rightarrow> bool" where
  "consistent self =
     (distinct (map fst (active_connections self))
      \<and> distinct (map fst (connection_info self))
      \<and> index_agrees user_id (user_connections self) self
      \<and> index_agrees session_id (session_connections self) self)"

text \<open>An accepted connection gets a new id (\<^verbatim>\<open>uuid4\<close>).\<close>

fun fresh_id :: "ws_event \<Rightarrow> WebSocketManager \<Rightarrow> bool" where
  "fresh_id (Accept websocket cid accept_ok send_ok now uuid) self =
     (cid \<notin> fst ` set (active_connections self) \<and> cid \<notin> fst ` set (connection_info self))"
| "fresh_id _ self = True"

subsection \<open>A manager with two connections of one user\<close>

text \<open>
  Two connections \<^verbatim>\<open>c1\<close> and \<^verbatim>\<open>c2\<close> of the user \<^verbatim>\<open>alice\<close>, the first also in the
  session \<^verbatim>\<open>s1\<close>; \<^verbatim>\<open>c1\<close> was last active at time 10, \<^verbatim>\<open>c2\<close> at time 350.
\<close>

definition browser :: WebSocket where
  "browser = \<lparr>ws_client_host = Some ''192.0.2.7'', ws_user_agent = Some ''Mozilla/5.0''\<rparr>"

definition alice_manager :: WebSocketManager where
  "alice_manager =
     \<lparr>active_connections = [(''c1'', browser), (''c2'', browser)],
      connection_info =
        [(''c1'', \<lparr>connection_id = ''c1'', client_ip = ''192.0.2.7'',
                  conn_user_agent = ''Mozilla/5.0'', connected_at = 10, last_activity = 10,
                  message_count = 0, user_id = Some ''alice'', session_id = Some ''s1''\<rparr>),
         (''c2'', \<lparr>connection_id = ''c2'', client_ip = ''192.0.2.7'',
                  conn_user_agent = ''Mozilla/5.0'', connected_at = 11, last_activity = 350,
                  message_count = 4, user_id = Some ''alice'', session_id = None\<rparr>)],
      user_connections = [''alice'' \<mapsto> {''c1'', ''c2''}],
      session_connections = [''s1'' \<mapsto> {''c1''}],
      running = True,
      ws_stats = \<lparr>total_connections = 2, current_connections = 2, messages_sent = 2,
                  messages_received = 4, disconnections = 0, ws_errors = 0\<rparr>\<rparr>"

subsection \<open>Managers with an index entry that the connection record does not name\<close>

text \<open>
  The manager after one accepted connection \<^verbatim>\<open>c1\<close>, whose id has then been put into
  the set of the user \<^verbatim>\<open>alice\<close>, while the record of the connection names no user
  (\<^verbatim>\<open>handle_connection\<close> leaves \<^verbatim>\<open>user_id\<close> at \<^verbatim>\<open>None\<close>).
\<close>

definition unnamed_user_manager :: WebSocketManager where
  "unnamed_user_manager =
     (run_manager [Accept browser ''c1'' True True 10 ''m1''])
       \<lparr>user_connections := [''alice'' \<mapsto> {''c1''}]\<rparr>"

text \<open>
  The same connection under the empty user id, which is both in its record and the key
  of the index.
\<close>

definition empty_user_manager :: WebSocketManager where
  "empty_user_manager =
     (let m = run_manager [Accept browser ''c1'' True True 10 ''m1''] in
      m\<lparr>connection_info := map (\<lambda>kv. (fst kv, (snd kv)\<lparr>user_id := Some []\<rparr>)) (connection_info m),
        user_connections := [[] \<mapsto> {''c1''}]\<rparr>)"

section \<open>Properties of the service registry\<close>

subsection \<open>Association lists as dicts\<close>

lemma update_length_present:
  "k \<in> fst ` set al \<Longrightarrow> length (AList.update k v al) = length al"
  by (induction al) auto

lemma update_values_by_key:
  assumes "distinct (map fst al)" and "list_all (\<lambda>kv. f (snd kv) = fst kv) al" and "f v = k"
  shows "filter (\<lambda>s. f s = k) (map snd (AList.update k v al)) = [v]"
  using assms
proof (induction al)
  case Nil
  then show ?case by simp
next
  case (Cons p ps)
  show ?case
  proof (cases "fst p = k")
    case True
    have "filter (\<lambda>s. f s = k) (map snd ps) = []"
      using Cons.prems True by (force simp: filter_empty_conv list_all_iff)
    with True Cons.prems show ?thesis by simp
  next
    case False
    with Cons show ?thesis by simp
  qed
qed

lemma update_values_others:
  assumes "distinct (map fst al)" and "list_all (\<lambda>kv. f (snd kv) = fst kv) al"
    and "x \<in> set (map snd (AList.update k v al))"
  shows "x = v \<or> f x \<noteq> k"
  using assms
proof (induction al)
  case Nil
  then show ?case by simp
next
  case (Cons p ps)
  show ?case
  proof (cases "fst p = k")
    case True
    with Cons.prems have "x = v \<or> x \<in> snd ` set ps" by auto
    moreover have "f y \<noteq> k" if "y \<in> snd ` set ps" for y
      using that Cons.prems True by (force simp: list_all_iff)
    ultimately show ?thesis by blast
  next
    case False
    with Cons show ?thesis by auto
  qed
qed

lemma update_keeps_ids:
  assumes "list_all (\<lambda>kv. f (snd kv) = fst kv) al" and "f v = k"
  shows "list_all (\<lambda>kv. f (snd kv) = fst kv) (AList.update k v al)"
  using assms by (induction al) auto

lemma map_of_ids:
  assumes "list_all (\<lambda>kv. f (snd kv) = fst kv) al" and "map_of al k = Some v"
  shows "f v = k"
  using assms by (induction al) (auto split: if_splits)

subsection \<open>The example registry, evaluated\<close>

lemma two_instances_eval:
  "two_instances =
     \<lparr>services =
        [(''a'', \<lparr>service_id = ''a'', name = ''A'', version = ''1.0'', host = ''localhost'',
                 port = 8001, protocol = ''http'', health_endpoint = ''/health'', tags = [],
                 dependencies = [], metadata = [], registered_at = 1,
                 last_health_check = None, health_status = ''unknown'',
                 consecutive_failures = 0, response_time_ms = None\<rparr>),
         (''b'', \<lparr>service_id = ''b'', name = ''A'', version = ''1.0'', host = ''localhost'',
                 port = 8002, protocol = ''http'', health_endpoint = ''/health'', tags = [],
                 dependencies = [], metadata = [], registered_at = 2,
                 last_health_check = None, health_status = ''unknown'',
                 consecutive_failures = 0, response_time_ms = None\<rparr>)],
      sd_stats = \<lparr>total_services = 2, healthy_services = 0, unhealthy_services = 0,
                  total_health_checks = 0, failed_health_checks = 0,
                  average_response_time = 0\<rparr>\<rparr>"
  by (simp add: two_instances_def registry_after_register_def register_service_def
      descriptor_A_def dict_item_def dict_get_or_def ServiceDiscovery_init_def Let_def)

subsection \<open>Registration\<close>

lemma register_service_Inr:
  assumes "register_service self d uuid now = Inr (rid, self')"
  shows "\<exists>nm ver hst prt.
           d_name d = Some nm \<and> d_version d = Some ver \<and> d_host d = Some hst \<and> d_port d = Some prt \<and>
           rid = dict_get_or (d_id d) uuid \<and>
           self' = self\<lparr>services :=
                          AList.update rid
                            \<lparr>service_id = rid, name = nm, version = ver, host = hst, port = prt,
                             protocol = dict_get_or (d_protocol d) ''http'',
                             health_endpoint = dict_get_or (d_health_endpoint d) ''/health'',
                             tags = dict_get_or (d_tags d) [],
                             dependencies = dict_get_or (d_dependencies d) [],
                             metadata = dict_get_or (d_metadata d) [],
                             registered_at = now, last_health_check = None,
                             health_status = ''unknown'', consecutive_failures = 0,
                             response_time_ms = None\<rparr>
                            (services self),
                        sd_stats := (sd_stats self)\<lparr>total_services :=
                          int (length (AList.update rid
                            \<lparr>service_id = rid, name = nm, version = ver, host = hst, port = prt,
                             protocol = dict_get_or (d_protocol d) ''http'',
                             health_endpoint = dict_get_or (d_health_endpoint d) ''/health'',
                             tags = dict_get_or (d_tags d) [],
                             dependencies = dict_get_or (d_dependencies d) [],
                             metadata = dict_get_or (d_metadata d) [],
                             registered_at = now, last_health_check = None,
                             health_status = ''unknown'', consecutive_failures = 0,
                             response_time_ms = None\<rparr>
                            (services self)))\<rparr>\<rparr>"
  using assms
  by (cases "d_name d"; cases "d_version d"; cases "d_host d"; cases "d_port d")
     (auto simp: register_service_def dict_item_def Let_def)

lemma register_service_wf:
  assumes "registry_wf self" and "register_service self d uuid now = Inr (rid, self')"
  shows "registry_wf self'"
proof -
  from register_service_Inr[OF assms(2)] obtain info where
    s: "services self' = AList.update rid info (services self)" and i: "service_id info = rid"
    by (elim exE conjE) simp
  show ?thesis
    using assms(1) i unfolding registry_wf_def s
    by (simp add: distinct_update update_keeps_ids)
qed

text \<open>
  C10. A call of \<^verbatim>\<open>register_service\<close> whose descriptor carries an id that is already
  registered replaces the instance stored under that id: the returned id is the supplied
  one, the number of instances is unchanged, \<^verbatim>\<open>get_service(id)\<close> is the instance built
  from the new descriptor (with its defaults, status \<^verbatim>\<open>unknown\<close> and the registration
  time of this call), that instance is the only one listed under the id, and the instance
  stored before is no longer listed (unless the new one is equal to it field by field).
\<close>

theorem register_service_existing_id_replaces:
  assumes "registry_wf self"
    and "d_id d = Some sid"
    and "get_service self sid = Some old"
    and "register_service self d uuid now = Inr (rid, self')"
  shows "rid = sid
       \<and> length (get_all_services self') = length (get_all_services self)
       \<and> (\<exists>new. get_service self' sid = Some new
             \<and> service_id new = sid
             \<and> d_name d = Some (name new) \<and> d_version d = Some (version new)
             \<and> d_host d = Some (host new) \<and> d_port d = Some (port new)
             \<and> protocol new = dict_get_or (d_protocol d) ''http''
             \<and> health_endpoint new = dict_get_or (d_health_endpoint d) ''/health''
             \<and> tags new = dict_get_or (d_tags d) []
             \<and> dependencies new = dict_get_or (d_dependencies d) []
             \<and> metadata new = dict_get_or (d_metadata d) []
             \<and> registered_at new = now \<and> last_health_check new = None
             \<and> health_status new = ''unknown'' \<and> consecutive_failures new = 0
             \<and> response_time_ms new = None
             \<and> filter (\<lambda>s. service_id s = sid) (get_all_services self') = [new]
             \<and> (old \<noteq> new \<longrightarrow> old \<notin> set (get_all_services self')))"
proof -
  from register_service_Inr[OF assms(4)] obtain nm ver hst prt where
    d: "d_name d = Some nm" "d_version d = Some ver" "d_host d = Some hst" "d_port d = Some prt"
    and rid: "rid = dict_get_or (d_id d) uuid"
    and self': "services self' =
          AList.update rid
            \<lparr>service_id = rid, name = nm, version = ver, host = hst, port = prt,
             protocol = dict_get_or (d_protocol d) ''http'',
             health_endpoint = dict_get_or (d_health_endpoint d) ''/health'',
             tags = dict_get_or (d_tags d) [],
             dependencies = dict_get_or (d_dependencies d) [],
             metadata = dict_get_or (d_metadata d) [],
             registered_at = now, last_health_check = None,
             health_status = ''unknown'', consecutive_failures = 0,
             response_time_ms = None\<rparr>
            (services self)"
    by (elim exE conjE) simp
  define new where "new =
            \<lparr>service_id = rid, name = nm, version = ver, host = hst, port = prt,
             protocol = dict_get_or (d_protocol d) ''http'',
             health_endpoint = dict_get_or (d_health_endpoint d) ''/health'',
             tags = dict_get_or (d_tags d) [],
             dependencies = dict_get_or (d_dependencies d) [],
             metadata = dict_get_or (d_metadata d) [],
             registered_at = now, last_health_check = None,
             health_status = ''unknown'', consecutive_failures = 0,
             response_time_ms = None\<rparr>"
  have s: "services self' = AList.update sid new (services self)"
    and r: "rid = sid"
    using self' rid assms(2) by (simp_all add: new_def dict_get_or_def)
  have dist: "distinct (map fst (services self))"
    and ids: "list_all (\<lambda>kv. service_id (snd kv) = fst kv) (services self)"
    using assms(1) by (simp_all add: registry_wf_def)
  have old: "map_of (services self) sid = Some old"
    using assms(3) by (simp add: get_service_def)
  then have present: "sid \<in> fst ` set (services self)"
    by (metis domI dom_map_of_conv_image_fst)
  have newid: "service_id new = sid" by (simp add: new_def r)
  have len: "length (get_all_services self') = length (get_all_services self)"
    by (simp add: get_all_services_def s update_length_present[OF present])
  have get: "get_service self' sid = Some new"
    by (simp add: get_service_def s update_conv')
  have only: "filter (\<lambda>s. service_id s = sid) (get_all_services self') = [new]"
    unfolding get_all_services_def s by (rule update_values_by_key[OF dist ids newid])
  have gone: "old \<notin> set (get_all_services self')" if "old \<noteq> new"
  proof
    assume "old \<in> set (get_all_services self')"
    then have "old \<in> set (map snd (AList.update sid new (services self)))"
      by (simp add: get_all_services_def s)
    from update_values_others[OF dist ids this] that have "service_id old \<noteq> sid" by simp
    moreover have "service_id old = sid" by (rule map_of_ids[OF ids old])
    ultimately show False by simp
  qed
  have fields: "d_name d = Some (name new) \<and> d_version d = Some (version new)
             \<and> d_host d = Some (host new) \<and> d_port d = Some (port new)
             \<and> protocol new = dict_get_or (d_protocol d) ''http''
             \<and> health_endpoint new = dict_get_or (d_health_endpoint d) ''/health''
             \<and> tags new = dict_get_or (d_tags d) []
             \<and> dependencies new = dict_get_or (d_dependencies d) []
             \<and> metadata new = dict_get_or (d_metadata d) []
             \<and> registered_at new = now \<and> last_health_check new = None
             \<and> health_status new = ''unknown'' \<and> consecutive_failures new = 0
             \<and> response_time_ms new = None"
    by (simp add: new_def d)
  from r len get newid fields only gone show ?thesis by blast
qed


theorem register_service_existing_id_replaces_witness:
  "registry_wf two_instances
   \<and> (\<exists>old. get_service two_instances ''a'' = Some old \<and> port old = 8001)
   \<and> (\<exists>self'. register_service two_instances (descriptor_A ''a'' 9001) ''u3'' 7 = Inr (''a'', self')
         \<and> length (get_all_services self') = length (get_all_services two_instances)
         \<and> map port (filter (\<lambda>s. service_id s = ''a'') (get_all_services self')) = [9001]
         \<and> map_option port (get_service self' ''a'') = Some 9001)"
proof -
  define old where "old = the (get_service two_instances ''a'')"
  define self' where "self' = registry_after_register two_instances (descriptor_A ''a'' 9001) ''u3'' 7"
  have wf: "registry_wf two_instances"
    by (simp add: registry_wf_def two_instances_eval)
  have did: "d_id (descriptor_A ''a'' 9001) = Some ''a''"
    by (simp add: descriptor_A_def)
  have old: "get_service two_instances ''a'' = Some old"
    by (simp add: old_def get_service_def two_instances_eval)
  have oldp: "port old = 8001"
    by (simp add: old_def get_service_def two_instances_eval)
  have reg: "register_service two_instances (descriptor_A ''a'' 9001) ''u3'' 7 = Inr (''a'', self')"
    by (simp add: self'_def registry_after_register_def register_service_def descriptor_A_def
        dict_item_def dict_get_or_def Let_def)
  from register_service_existing_id_replaces[OF wf did old reg] obtain new where
    len: "length (get_all_services self') = length (get_all_services two_instances)"
    and get: "get_service self' ''a'' = Some new"
    and prt: "d_port (descriptor_A ''a'' 9001) = Some (port new)"
    and only: "filter (\<lambda>s. service_id s = ''a'') (get_all_services self') = [new]"
    by blast
  from prt have "port new = 9001" by (simp add: descriptor_A_def)
  with wf old oldp reg len get only show ?thesis by auto
qed

subsection \<open>Health probes\<close>

lemma check_service_health_failures_nonneg:
  "0 \<le> consecutive_failures info \<Longrightarrow>
   0 \<le> consecutive_failures (fst (check_service_health http_get t0 t1 stamp (info, stats)))"
  by (simp add: check_service_health_def Let_def split: probe_result.splits)

lemma probe_registered_get:
  assumes "get_service self sid = Some info"
  shows "get_service (probe_registered http_get t0 t1 stamp self sid) sid =
           Some (fst (check_service_health http_get t0 t1 stamp (info, sd_stats self)))"
  using assms by (simp add: probe_registered_def get_service_def Let_def update_conv')

text \<open>
  C4. One probe of an instance (\<^verbatim>\<open>_check_service_health\<close>; the probe is sent when the
  instance has a health endpoint). On HTTP 200 the status becomes \<^verbatim>\<open>healthy\<close>,
  \<^verbatim>\<open>consecutive_failures\<close> is reset to 0 and the latency is recorded; on any other status
  code the status becomes \<^verbatim>\<open>degraded\<close> and \<^verbatim>\<open>consecutive_failures\<close> grows by 1; when
  the request raises (transport error or timeout) the status becomes \<^verbatim>\<open>unhealthy\<close> and
  \<^verbatim>\<open>consecutive_failures\<close> grows by 1. In each case \<^verbatim>\<open>last_health_check\<close> is stamped.
  So the counter, which is never negative, is 0 afterwards exactly when the probe answered
  200.
\<close>

theorem check_service_health_outcomes:
  assumes "health_endpoint info \<noteq> []"
    and "0 \<le> consecutive_failures info"
    and "check_service_health http_get t0 t1 stamp (info, stats) = (info', stats')"
  shows "(case http_get (health_url info) of
            Response status_code \<Rightarrow>
              (if status_code = 200
               then health_status info' = ''healthy'' \<and> consecutive_failures info' = 0
                  \<and> response_time_ms info' = Some ((t1 - t0) * 1000)
               else health_status info' = ''degraded''
                  \<and> consecutive_failures info' = consecutive_failures info + 1)
          | ProbeRaised e \<Rightarrow>
              health_status info' = ''unhealthy''
            \<and> consecutive_failures info' = consecutive_failures info + 1)
       \<and> last_health_check info' = Some stamp
       \<and> (consecutive_failures info' = 0 \<longleftrightarrow> http_get (health_url info) = Response 200)"
proof (cases "http_get (health_url info)")
  case (Response status_code)
  with assms show ?thesis
    by (cases "status_code = 200") (auto simp: check_service_health_def Let_def)
next
  case (ProbeRaised e)
  with assms show ?thesis
    by (auto simp: check_service_health_def Let_def)
qed

lemma health_endpoint_kept:
  "health_endpoint (fst (check_service_health http_get t0 t1 stamp (info, stats))) =
     health_endpoint info"
  by (simp add: check_service_health_def Let_def split: probe_result.splits)

theorem check_service_health_outcomes_witness:
  "get_service two_instances ''a'' = Some instance_a
   \<and> health_status (fst probe_ok) = ''healthy'' \<and> consecutive_failures (fst probe_ok) = 0
   \<and> response_time_ms (fst probe_ok) = Some 250 \<and> last_health_check (fst probe_ok) = Some 6
   \<and> health_status (fst probe_503) = ''degraded'' \<and> consecutive_failures (fst probe_503) = 1
   \<and> last_health_check (fst probe_503) = Some 9
   \<and> health_status (fst probe_timeout) = ''unhealthy''
   \<and> consecutive_failures (fst probe_timeout) = 2
   \<and> last_health_check (fst probe_timeout) = Some 41"
proof -
  have g: "get_service two_instances ''a'' = Some instance_a"
    by (simp add: get_service_def two_instances_eval instance_a_def)
  have he0: "health_endpoint instance_a \<noteq> []" and cf0: "0 \<le> consecutive_failures instance_a"
    by (simp_all add: instance_a_def)
  have e1: "check_service_health (\<lambda>url. Response 200) 5 (5 + 1 / 4) 6
              (instance_a, sd_stats two_instances) = (fst probe_ok, snd probe_ok)"
    by (simp add: probe_ok_def)
  from check_service_health_outcomes[OF he0 cf0 e1]
  have a1: "health_status (fst probe_ok) = ''healthy''"
    and a2: "consecutive_failures (fst probe_ok) = 0"
    and a3: "response_time_ms (fst probe_ok) = Some 250"
    and a4: "last_health_check (fst probe_ok) = Some 6"
    by simp_all
  have he1: "health_endpoint (fst probe_ok) \<noteq> []"
    using he0 by (simp add: probe_ok_def health_endpoint_kept)
  have cf1: "0 \<le> consecutive_failures (fst probe_ok)"
    using a2 by simp
  have e2: "check_service_health (\<lambda>url. Response 503) 7 8 9 (fst probe_ok, snd probe_ok)
              = (fst probe_503, snd probe_503)"
    by (simp add: probe_503_def)
  from check_service_health_outcomes[OF he1 cf1 e2]
  have b1: "health_status (fst probe_503) = ''degraded''"
    and b2: "consecutive_failures (fst probe_503) = consecutive_failures (fst probe_ok) + 1"
    and b3: "last_health_check (fst probe_503) = Some 9"
    by simp_all
  have he2: "health_endpoint (fst probe_503) \<noteq> []"
    using he1 health_endpoint_kept[of "\<lambda>url. Response 503" 7 8 9 "fst probe_ok" "snd probe_ok"]
    by (simp add: probe_503_def)
  have cf2: "0 \<le> consecutive_failures (fst probe_503)"
    using b2 a2 by simp
  have e3: "check_service_health (\<lambda>url. ProbeRaised (OtherException ''ReadTimeout'' [])) 10 40 41
              (fst probe_503, snd probe_503) = (fst probe_timeout, snd probe_timeout)"
    by (simp add: probe_timeout_def)
  from check_service_health_outcomes[OF he2 cf2 e3]
  have c1: "health_status (fst probe_timeout) = ''unhealthy''"
    and c2: "consecutive_failures (fst probe_timeout) = consecutive_failures (fst probe_503) + 1"
    and c3: "last_health_check (fst probe_timeout) = Some 41"
    by simp_all
  from b2 a2 have b2': "consecutive_failures (fst probe_503) = 1" by simp
  from c2 b2' have c2': "consecutive_failures (fst probe_timeout) = 2" by simp
  from g a1 a2 a3 a4 b1 b2' b3 c1 c2' c3 show ?thesis by blast
qed

subsection \<open>Discovery\<close>

lemma key_less_trans_neg:
  "\<not> key_less a b \<Longrightarrow> \<not> key_less b c \<Longrightarrow> \<not> key_less a c"
  by (cases a; cases b; cases c) auto

lemma py_min_from_mem: "py_min_from b xs \<in> set (b # xs)"
  by (induction xs arbitrary: b) auto

lemma py_min_from_le_best:
  "\<not> key_less (latency_key b) (latency_key (py_min_from b xs))"
proof (induction xs arbitrary: b)
  case Nil
  show ?case by (cases "latency_key b") auto
next
  case (Cons x xs)
  show ?case
  proof (cases "key_less (latency_key x) (latency_key b)")
    case True
    have "\<not> key_less (latency_key b) (latency_key x)"
      using True by (cases "latency_key x"; cases "latency_key b") auto
    with Cons[of x] True show ?thesis
      by (auto dest: key_less_trans_neg)
  next
    case False
    with Cons[of b] show ?thesis by simp
  qed
qed

lemma py_min_from_minimal:
  "x \<in> set (b # xs) \<Longrightarrow> \<not> key_less (latency_key x) (latency_key (py_min_from b xs))"
proof (induction xs arbitrary: b)
  case Nil
  then show ?case by (cases "latency_key b") auto
next
  case (Cons y ys)
  let ?b' = "if key_less (latency_key y) (latency_key b) then y else b"
  have m: "py_min_from b (y # ys) = py_min_from ?b' ys" by simp
  have best: "\<not> key_less (latency_key ?b') (latency_key (py_min_from ?b' ys))"
    by (rule py_min_from_le_best)
  from Cons.prems consider "x = b" | "x = y" | "x \<in> set ys" by auto
  then show ?case
  proof cases
    case 1
    have "\<not> key_less (latency_key b) (latency_key ?b')"
      by (cases "latency_key y"; cases "latency_key b") auto
    with best 1 show ?thesis unfolding m by (blast dest: key_less_trans_neg)
  next
    case 2
    have "\<not> key_less (latency_key y) (latency_key ?b')"
      by (cases "latency_key y"; cases "latency_key b") auto
    with best 2 show ?thesis unfolding m by (blast dest: key_less_trans_neg)
  next
    case 3
    then have "x \<in> set (?b' # ys)" by simp
    from Cons.IH[OF this] show ?thesis unfolding m .
  qed
qed

text \<open>The two filters of \<^verbatim>\<open>discover_service\<close> select the matching instances.\<close>

lemma discover_matching:
  "discover_service self nm tgs =
     (case filter (\<lambda>s. health_status s = ''healthy'') (matching_services self nm tgs) of
        h # hs \<Rightarrow> Some (py_min_from h hs)
      | [] \<Rightarrow> (case matching_services self nm tgs of s # _ \<Rightarrow> Some s | [] \<Rightarrow> None))"
proof -
  have "(case tgs of
           None \<Rightarrow> get_services_by_name self nm
         | Some ts \<Rightarrow> if ts = [] then get_services_by_name self nm
                      else filter (\<lambda>s. list_all (\<lambda>tag. tag \<in> set (tags s)) ts) (get_services_by_name self nm))
        = matching_services self nm tgs"
    by (cases tgs)
       (auto simp: matching_services_def get_services_by_name_def get_all_services_def
          matches_def list_all_iff subset_iff intro!: filter_cong)
  then show ?thesis
    unfolding discover_service_def Let_def by (simp only:)
qed

text \<open>
  What \<^verbatim>\<open>discover_service\<close> returns when no healthy matching instance has a recorded
  latency of exactly \<open>0.0\<close>: a healthy matching instance of lowest recorded latency if
  one is healthy, else the first matching instance if there is one, else \<^verbatim>\<open>None\<close>.
\<close>

lemma discover_service_lowest_nonzero:
  assumes nz: "\<forall>s \<in> set (matching_services self nm tgs).
                 health_status s = ''healthy'' \<longrightarrow> response_time_ms s \<noteq> Some 0"
  shows "(if \<exists>s \<in> set (matching_services self nm tgs). health_status s = ''healthy''
          then \<exists>r. discover_service self nm tgs = Some r
                 \<and> r \<in> set (matching_services self nm tgs) \<and> health_status r = ''healthy''
                 \<and> (\<forall>s \<in> set (matching_services self nm tgs). health_status s = ''healthy''
                       \<longrightarrow> recorded_le (response_time_ms r) (response_time_ms s))
          else if matching_services self nm tgs \<noteq> []
          then \<exists>r. discover_service self nm tgs = Some r \<and> r \<in> set (matching_services self nm tgs)
          else discover_service self nm tgs = None)"
proof -
  let ?M = "matching_services self nm tgs"
  let ?H = "filter (\<lambda>s. health_status s = ''healthy'') ?M"
  show ?thesis
  proof (cases ?H)
    case Nil
    then have noh: "\<not> (\<exists>s \<in> set ?M. health_status s = ''healthy'')"
      by (auto simp: filter_empty_conv)
    show ?thesis using Nil noh
      by (cases ?M) (auto simp: discover_matching)
  next
    case (Cons h hs)
    let ?r = "py_min_from h hs"
    have "h \<in> set ?H" using Cons by simp
    then have ex: "\<exists>s \<in> set ?M. health_status s = ''healthy''"
      by auto
    have rin: "?r \<in> set ?H" using py_min_from_mem[of h hs] Cons by simp
    have keyeq: "latency_key s = response_time_ms s" if "s \<in> set ?H" for s
    proof -
      from that nz have "response_time_ms s \<noteq> Some 0" by simp
      then show ?thesis by (simp add: latency_key_def split: option.splits)
    qed
    have minimal: "recorded_le (response_time_ms ?r) (response_time_ms s)" if "s \<in> set ?H" for s
    proof -
      have "\<not> key_less (latency_key s) (latency_key ?r)"
        using py_min_from_minimal[of s h hs] that Cons by simp
      then have "\<not> key_less (response_time_ms s) (response_time_ms ?r)"
        using keyeq[OF that] keyeq[OF rin] by simp
      then show ?thesis
        by (cases "response_time_ms s"; cases "response_time_ms ?r") auto
    qed
    have d: "discover_service self nm tgs = Some ?r"
      using Cons by (simp add: discover_matching)
    have "?r \<in> set ?M \<and> health_status ?r = ''healthy''
          \<and> (\<forall>s \<in> set ?M. health_status s = ''healthy''
                \<longrightarrow> recorded_le (response_time_ms ?r) (response_time_ms s))"
      using rin minimal by simp
    with d ex show ?thesis by (simp only: if_True) blast
  qed
qed

text \<open>
  C3. \<^verbatim>\<open>discover_service\<close> is to return the healthy matching instance with the lowest
  recorded latency; it does not. In \<open>zero_latency_registry\<close> both instances of
  \<^verbatim>\<open>A\<close> are healthy, \<^verbatim>\<open>a\<close> with a recorded latency of \<open>0.0\<close> and \<^verbatim>\<open>b\<close> with \<open>10.0\<close>;
  \<^verbatim>\<open>discover_service("A")\<close> returns \<^verbatim>\<open>b\<close>. The sort key
  \<^verbatim>\<open>s.response_time_ms or float('inf')\<close> takes a latency of \<open>0.0\<close> for no latency.
\<close>

theorem discover_service_skips_zero_latency:
  "map_option (\<lambda>s. (name s, health_status s, response_time_ms s))
       (get_service zero_latency_registry ''a'') = Some (''A'', ''healthy'', Some 0)
   \<and> map_option (\<lambda>s. (name s, health_status s, response_time_ms s))
       (get_service zero_latency_registry ''b'') = Some (''A'', ''healthy'', Some 10)
   \<and> map_option service_id (discover_service zero_latency_registry ''A'' None) = Some ''b''"
  by (simp add: zero_latency_registry_def probe_registered_def check_service_health_def
      two_instances_eval get_service_def discover_service_def get_services_by_name_def
      latency_key_def Let_def)

section \<open>Properties of the circuit breaker manager\<close>

lemmas breaker_defs =
  call_with_circuit_breaker_def get_or_create_circuit_breaker_def update_stats_def
  notify_def store_breaker_def handle_exception_def breaker_call_def breaker_refresh_def
  breaker_record_def current_state_def recovery_elapsed_def BaseCircuitBreaker_init_def
  int_or_def Let_def

subsection \<open>One call, case by case\<close>

text \<open>A call on a name that has no breaker yet creates it and goes on as on the new manager.\<close>

lemma call_creates_first:
  "call_with_circuit_breaker self nm func ft rt now w =
   call_with_circuit_breaker (get_or_create_circuit_breaker self nm ft rt now) nm func ft' rt' now w"
  by (simp add: call_with_circuit_breaker_def get_or_create_circuit_breaker_def Let_def domI)

lemma get_or_create_fresh:
  assumes "nm \<notin> dom (circuit_breakers self)"
  shows "circuit_breakers (get_or_create_circuit_breaker self nm ft rt now) nm =
           Some (BaseCircuitBreaker_init (int_or ft (cfg_failure_threshold (default_config self)))
                                        (int_or rt (cfg_recovery_timeout (default_config self))))"
    and "cb_stats (get_or_create_circuit_breaker self nm ft rt now) nm =
           Some \<lparr>cb_name = nm, state = CLOSED, failure_count = 0, success_count = 0,
                 total_calls = 0, last_failure_time = None, last_success_time = None,
                 recovery_timeout = int_or rt (cfg_recovery_timeout (default_config self)),
                 failure_threshold = int_or ft (cfg_failure_threshold (default_config self)),
                 success_threshold = 3, call_timeout = 30, created_at = now\<rparr>"
  using assms by (simp_all add: get_or_create_circuit_breaker_def Let_def)

lemma get_or_create_existing:
  assumes "circuit_breakers self nm = Some b"
  shows "get_or_create_circuit_breaker self nm ft rt now = self"
  using assms by (simp add: get_or_create_circuit_breaker_def domI)

text \<open>An open breaker whose recovery timeout has not elapsed is read as open, and only then.\<close>

lemma current_state_open_iff:
  "current_state b now = ''open'' \<longleftrightarrow> b_state b = ''open'' \<and> \<not> recovery_elapsed b now"
  by (auto simp: current_state_def breaker_refresh_def)

text \<open>The call on an open breaker.\<close>

lemma call_rejected:
  assumes "circuit_breakers self nm = Some b" and "cb_stats self nm = Some s"
    and "current_state b now = ''open''"
  shows "call_with_circuit_breaker self nm func ft rt now w =
           (Inl (CircuitBreakerOpenError nm),
            self\<lparr>cb_stats := (cb_stats self)(nm \<mapsto> s\<lparr>total_calls := total_calls s + 1\<rparr>),
                 circuit_breakers := (circuit_breakers self)(nm \<mapsto> b)\<rparr>,
            w)"
proof -
  from assms(3) have "b_state b = ''open''" and "\<not> recovery_elapsed b now"
    by (simp_all add: current_state_open_iff)
  then have r: "breaker_refresh b now = (b, [])"
    by (simp add: breaker_refresh_def)
  show ?thesis
    using assms r
    by (simp add: call_with_circuit_breaker_def get_or_create_circuit_breaker_def
        update_stats_def notify_def store_breaker_def handle_exception_def Let_def domI)
qed

text \<open>A failing call on a closed breaker.\<close>

lemma call_closed_failure:
  assumes "circuit_breakers self nm = Some b" and "cb_stats self nm = Some s"
    and "b_state b = ''closed''" and "fst (func w) = Inl e"
    and "call_with_circuit_breaker self nm func ft rt now w = (r, self', w')"
  shows "r = Inl (if is_circuit_open_error e then e else ExternalServiceError nm (exc_str e))"
    and "w' = snd (func w)"
    and "circuit_breakers self' nm =
           Some (b\<lparr>b_failure_count := b_failure_count b + 1, b_last_failure := Some now,
                   b_state := (if b_failure_threshold b \<le> b_failure_count b + 1
                               then ''open'' else ''closed'')\<rparr>)"
    and "cb_stats self' nm =
           Some (s\<lparr>total_calls := total_calls s + 1,
                   state := (if b_failure_threshold b \<le> b_failure_count b + 1
                             then OPEN else state s),
                   failure_count := failure_count s + (if is_circuit_open_error e then 0 else 1),
                   last_failure_time :=
                     (if b_failure_threshold b \<le> b_failure_count b + 1 \<or> \<not> is_circuit_open_error e
                      then Some now else last_failure_time s)\<rparr>)"
  using assms
  by (auto simp: breaker_defs domI)

text \<open>A succeeding call on an open breaker whose recovery timeout has elapsed.\<close>

lemma call_recovery_success:
  assumes "circuit_breakers self nm = Some b" and "cb_stats self nm = Some s"
    and "b_state b = ''open''" and "recovery_elapsed b now" and "fst (func w) = Inr v"
    and "call_with_circuit_breaker self nm func ft rt now w = (r, self', w')"
  shows "r = Inr v"
    and "w' = snd (func w)"
    and "circuit_breakers self' nm = Some (b\<lparr>b_state := ''closed'', b_failure_count := 0\<rparr>)"
    and "cb_stats self' nm =
           Some (s\<lparr>total_calls := total_calls s + 1, state := CLOSED,
                   success_count := success_count s + 1,
                   last_success_time := Some now\<rparr>)"
  using assms
  by (auto simp: breaker_defs domI)


subsection \<open>The example runs, evaluated\<close>

lemma run1_eval:
  "run1 = (Inl (ExternalServiceError ''stt'' ''down''),
           \<lparr>circuit_breakers = [''stt'' \<mapsto>
              \<lparr>b_failure_threshold = 3, b_recovery_timeout = 30, b_state = ''closed'',
               b_failure_count = 1, b_last_failure = Some 100\<rparr>],
            cb_stats = [''stt'' \<mapsto>
              \<lparr>cb_name = ''stt'', state = CLOSED, failure_count = 1, success_count = 0,
               total_calls = 1, last_failure_time = Some 100, last_success_time = None,
               recovery_timeout = 30, failure_threshold = 3, success_threshold = 3,
               call_timeout = 30, created_at = 100\<rparr>],
            default_config = settings_circuit_breaker_config\<rparr>, 1)"
  by (simp add: run1_def CircuitBreakerManager_init_def failing_op_def breaker_defs)

lemma run2_eval:
  "run2 = (Inl (ExternalServiceError ''stt'' ''down''),
           \<lparr>circuit_breakers = [''stt'' \<mapsto>
              \<lparr>b_failure_threshold = 3, b_recovery_timeout = 30, b_state = ''closed'',
               b_failure_count = 2, b_last_failure = Some 101\<rparr>],
            cb_stats = [''stt'' \<mapsto>
              \<lparr>cb_name = ''stt'', state = CLOSED, failure_count = 2, success_count = 0,
               total_calls = 2, last_failure_time = Some 101, last_success_time = None,
               recovery_timeout = 30, failure_threshold = 3, success_threshold = 3,
               call_timeout = 30, created_at = 100\<rparr>],
            default_config = settings_circuit_breaker_config\<rparr>, 2)"
  by (simp add: run2_def next_call_def run1_eval failing_op_def breaker_defs)

lemma run3_eval:
  "run3 = (Inl (ExternalServiceError ''stt'' ''down''),
           \<lparr>circuit_breakers = [''stt'' \<mapsto>
              \<lparr>b_failure_threshold = 3, b_recovery_timeout = 30, b_state = ''open'',
               b_failure_count = 3, b_last_failure = Some 102\<rparr>],
            cb_stats = [''stt'' \<mapsto>
              \<lparr>cb_name = ''stt'', state = OPEN, failure_count = 3, success_count = 0,
               total_calls = 3, last_failure_time = Some 102, last_success_time = None,
               recovery_timeout = 30, failure_threshold = 3, success_threshold = 3,
               call_timeout = 30, created_at = 100\<rparr>],
            default_config = settings_circuit_breaker_config\<rparr>, 3)"
  by (simp add: run3_def next_call_def run2_eval failing_op_def breaker_defs)

lemma run4_eval:
  "run4 = (Inl (CircuitBreakerOpenError ''stt''),
           \<lparr>circuit_breakers = [''stt'' \<mapsto>
              \<lparr>b_failure_threshold = 3, b_recovery_timeout = 30, b_state = ''open'',
               b_failure_count = 3, b_last_failure = Some 102\<rparr>],
            cb_stats = [''stt'' \<mapsto>
              \<lparr>cb_name = ''stt'', state = OPEN, failure_count = 3, success_count = 0,
               total_calls = 4, last_failure_time = Some 102, last_success_time = None,
               recovery_timeout = 30, failure_threshold = 3, success_threshold = 3,
               call_timeout = 30, created_at = 100\<rparr>],
            default_config = settings_circuit_breaker_config\<rparr>, 3)"
  by (simp add: run4_def next_call_def run3_eval succeeding_op_def breaker_defs)

lemma run5_eval:
  "run5 = (Inr ''text'',
           \<lparr>circuit_breakers = [''stt'' \<mapsto>
              \<lparr>b_failure_threshold = 3, b_recovery_timeout = 30, b_state = ''closed'',
               b_failure_count = 0, b_last_failure = Some 102\<rparr>],
            cb_stats = [''stt'' \<mapsto>
              \<lparr>cb_name = ''stt'', state = CLOSED, failure_count = 3, success_count = 1,
               total_calls = 5, last_failure_time = Some 102, last_success_time = Some 132,
               recovery_timeout = 30, failure_threshold = 3, success_threshold = 3,
               call_timeout = 30, created_at = 100\<rparr>],
            default_config = settings_circuit_breaker_config\<rparr>, 4)"
  by (simp add: run5_def next_call_def run4_eval succeeding_op_def breaker_defs)

lemma nested_run_eval:
  "nested_run = (Inl (CircuitBreakerOpenError ''inner''),
           \<lparr>circuit_breakers = [''outer'' \<mapsto>
              \<lparr>b_failure_threshold = 5, b_recovery_timeout = 60, b_state = ''closed'',
               b_failure_count = 1, b_last_failure = Some 100\<rparr>],
            cb_stats = [''outer'' \<mapsto>
              \<lparr>cb_name = ''outer'', state = CLOSED, failure_count = 0, success_count = 0,
               total_calls = 1, last_failure_time = None, last_success_time = None,
               recovery_timeout = 60, failure_threshold = 5, success_threshold = 3,
               call_timeout = 30, created_at = 100\<rparr>],
            default_config = settings_circuit_breaker_config\<rparr>, 1)"
  by (simp add: nested_run_def CircuitBreakerManager_init_def inner_open_op_def
      settings_circuit_breaker_config_def breaker_defs)

subsection \<open>Threshold, rejection and recovery\<close>

text \<open>
  C1, as the code has it. A breaker is created by a first call with
  \<^verbatim>\<open>failure_threshold=3\<close>. After three calls whose operation raises, the recorded state is
  open. A fourth call made before the recovery timeout has elapsed since the third failure
  raises \<^verbatim>\<open>CircuitBreakerOpenError\<close> and does not invoke its operation (the world is
  unchanged, whatever the operation). A call made once the recovery timeout has elapsed,
  whose operation returns, returns that value and leaves the recorded state closed. The
  recorded \<^verbatim>\<open>failure_count\<close> is then still the number of failures counted before (one for
  each of the three exceptions that is not a \<^verbatim>\<open>CircuitBreakerOpenError\<close>, so 3 for
  ordinary failures): neither the rejected call nor the successful one changes it.
\<close>

theorem breaker_opens_rejects_and_recovers:
  assumes fresh: "nm \<notin> dom (circuit_breakers self)"
    and c1: "call_with_circuit_breaker self nm f1 (Some 3) rt1 t1 w0 = (r1, m1, w1)"
    and c2: "call_with_circuit_breaker m1 nm f2 ft2 rt2 t2 w1 = (r2, m2, w2)"
    and c3: "call_with_circuit_breaker m2 nm f3 ft3 rt3 t3 w2 = (r3, m3, w3)"
    and c4: "call_with_circuit_breaker m3 nm f4 ft4 rt4 t4 w3 = (r4, m4, w4)"
    and c5: "call_with_circuit_breaker m4 nm f5 ft5 rt5 t5 w4 = (r5, m5, w5)"
    and e1: "fst (f1 w0) = Inl e1" and e2: "fst (f2 w1) = Inl e2" and e3: "fst (f3 w2) = Inl e3"
    and ok: "fst (f5 w4) = Inr v"
    and early: "t4 - t3 < real_of_int (int_or rt1 (cfg_recovery_timeout (default_config self)))"
    and late: "real_of_int (int_or rt1 (cfg_recovery_timeout (default_config self))) \<le> t5 - t3"
  shows "get_circuit_breaker_state m3 nm = Some OPEN
       \<and> r4 = Inl (CircuitBreakerOpenError nm) \<and> w4 = w3
       \<and> get_circuit_breaker_state m4 nm = Some OPEN
       \<and> r5 = Inr v
       \<and> get_circuit_breaker_state m5 nm = Some CLOSED
       \<and> map_option failure_count (get_circuit_breaker_stats m5 nm) =
           Some ((if is_circuit_open_error e1 then 0 else 1)
               + (if is_circuit_open_error e2 then 0 else 1)
               + (if is_circuit_open_error e3 then 0 else 1))"
proof -
  define rt where "rt = int_or rt1 (cfg_recovery_timeout (default_config self))"
  define m0 where "m0 = get_or_create_circuit_breaker self nm (Some 3) rt1 t1"
  define s0 where "s0 = \<lparr>cb_name = nm, state = CLOSED, failure_count = 0, success_count = 0,
                 total_calls = 0, last_failure_time = None, last_success_time = None,
                 recovery_timeout = rt, failure_threshold = 3,
                 success_threshold = 3, call_timeout = 30, created_at = t1\<rparr>"
  have b0: "circuit_breakers m0 nm = Some (BaseCircuitBreaker_init 3 rt)"
    and st0: "cb_stats m0 nm = Some s0"
    using get_or_create_fresh[OF fresh, of "Some 3" rt1 t1]
    by (simp_all add: m0_def rt_def s0_def int_or_def)
  have c1': "call_with_circuit_breaker m0 nm f1 (Some 3) rt1 t1 w0 = (r1, m1, w1)"
    using c1 call_creates_first[of self nm f1 "Some 3" rt1 t1 w0 "Some 3" rt1]
    by (simp add: m0_def)
  have cl0: "b_state (BaseCircuitBreaker_init 3 rt) = ''closed''"
    by (simp add: BaseCircuitBreaker_init_def)
  note s1 = call_closed_failure[OF b0 st0 cl0 e1 c1']
  define b1 where "b1 = \<lparr>b_failure_threshold = 3, b_recovery_timeout = rt, b_state = ''closed'',
                          b_failure_count = 1, b_last_failure = Some t1\<rparr>"
  have b1: "circuit_breakers m1 nm = Some b1"
    using s1(3) by (simp add: BaseCircuitBreaker_init_def b1_def)
  obtain sa where st1: "cb_stats m1 nm = Some sa" and sa: "state sa = CLOSED"
    "failure_count sa = (if is_circuit_open_error e1 then 0 else 1)"
    using s1(4) by (simp add: BaseCircuitBreaker_init_def s0_def)
  have cl1: "b_state b1 = ''closed''" by (simp add: b1_def)
  note s2 = call_closed_failure[OF b1 st1 cl1 e2 c2]
  define b2 where "b2 = \<lparr>b_failure_threshold = 3, b_recovery_timeout = rt, b_state = ''closed'',
                          b_failure_count = 2, b_last_failure = Some t2\<rparr>"
  have b2: "circuit_breakers m2 nm = Some b2"
    using s2(3) by (simp add: b1_def b2_def)
  obtain sb where st2: "cb_stats m2 nm = Some sb" and sb: "state sb = CLOSED"
    "failure_count sb = failure_count sa + (if is_circuit_open_error e2 then 0 else 1)"
    using s2(4) sa(1) by (simp add: b1_def)
  have cl2: "b_state b2 = ''closed''" by (simp add: b2_def)
  note s3 = call_closed_failure[OF b2 st2 cl2 e3 c3]
  define b3 where "b3 = \<lparr>b_failure_threshold = 3, b_recovery_timeout = rt, b_state = ''open'',
                          b_failure_count = 3, b_last_failure = Some t3\<rparr>"
  have b3: "circuit_breakers m3 nm = Some b3"
    using s3(3) by (simp add: b2_def b3_def)
  obtain sc where st3: "cb_stats m3 nm = Some sc" and sc: "state sc = OPEN"
    "failure_count sc = failure_count sb + (if is_circuit_open_error e3 then 0 else 1)"
    using s3(4) by (simp add: b2_def)
  have open3: "current_state b3 t4 = ''open''"
    using early by (simp add: current_state_open_iff recovery_elapsed_def b3_def rt_def)
  from c4 call_rejected[OF b3 st3 open3, of f4 ft4 rt4 w3]
  have r4: "r4 = Inl (CircuitBreakerOpenError nm)" and w4: "w4 = w3"
    and m4: "m4 = m3\<lparr>cb_stats := (cb_stats m3)(nm \<mapsto> sc\<lparr>total_calls := total_calls sc + 1\<rparr>),
                     circuit_breakers := (circuit_breakers m3)(nm \<mapsto> b3)\<rparr>"
    by simp_all
  have b4: "circuit_breakers m4 nm = Some b3"
    and st4: "cb_stats m4 nm = Some (sc\<lparr>total_calls := total_calls sc + 1\<rparr>)"
    by (simp_all add: m4)
  have o3: "b_state b3 = ''open''" by (simp add: b3_def)
  have el: "recovery_elapsed b3 t5"
    using late by (simp add: recovery_elapsed_def b3_def rt_def)
  note s5 = call_recovery_success[OF b4 st4 o3 el ok c5]
  have st5: "cb_stats m5 nm =
           Some (sc\<lparr>total_calls := total_calls sc + 1 + 1, state := CLOSED,
                   success_count := success_count sc + 1, last_success_time := Some t5\<rparr>)"
    using s5(4) by simp
  have fc: "failure_count sc =
            (if is_circuit_open_error e1 then 0 else 1)
          + (if is_circuit_open_error e2 then 0 else 1)
          + (if is_circuit_open_error e3 then 0 else 1)"
    using sa(2) sb(2) sc(2) by simp
  have "get_circuit_breaker_state m3 nm = Some OPEN"
    by (simp add: get_circuit_breaker_state_def st3 sc(1))
  moreover have "get_circuit_breaker_state m4 nm = Some OPEN"
    by (simp add: get_circuit_breaker_state_def st4 sc(1))
  moreover have "get_circuit_breaker_state m5 nm = Some CLOSED"
    by (simp add: get_circuit_breaker_state_def st5)
  moreover have "map_option failure_count (get_circuit_breaker_stats m5 nm) =
           Some ((if is_circuit_open_error e1 then 0 else 1)
               + (if is_circuit_open_error e2 then 0 else 1)
               + (if is_circuit_open_error e3 then 0 else 1))"
    by (simp only: get_circuit_breaker_stats_def st5 fc [symmetric]) simp
  ultimately show ?thesis
    using r4 w4 s5(1) by blast
qed

text \<open>
  The theorem on the run defined above: the fourth operation is not invoked (the world
  still counts three invocations), and after the successful fifth call the breaker is
  closed.
\<close>

theorem breaker_opens_rejects_and_recovers_witness:
  "get_circuit_breaker_state (fst (snd run3)) ''stt'' = Some OPEN
   \<and> fst run4 = Inl (CircuitBreakerOpenError ''stt'') \<and> snd (snd run4) = 3
   \<and> fst run5 = Inr ''text''
   \<and> get_circuit_breaker_state (fst (snd run5)) ''stt'' = Some CLOSED"
proof -
  have fresh: "''stt'' \<notin> dom (circuit_breakers CircuitBreakerManager_init)"
    by (simp add: CircuitBreakerManager_init_def)
  have c1: "call_with_circuit_breaker CircuitBreakerManager_init ''stt'' (failing_op ''down'')
              (Some 3) (Some 30) 100 0 = (fst run1, fst (snd run1), snd (snd run1))"
    by (simp add: run1_def)
  have c2: "call_with_circuit_breaker (fst (snd run1)) ''stt'' (failing_op ''down'')
              (Some 3) (Some 30) 101 (snd (snd run1)) = (fst run2, fst (snd run2), snd (snd run2))"
    by (simp add: run2_def next_call_def)
  have c3: "call_with_circuit_breaker (fst (snd run2)) ''stt'' (failing_op ''down'')
              (Some 3) (Some 30) 102 (snd (snd run2)) = (fst run3, fst (snd run3), snd (snd run3))"
    by (simp add: run3_def next_call_def)
  have c4: "call_with_circuit_breaker (fst (snd run3)) ''stt'' (succeeding_op ''text'')
              (Some 3) (Some 30) 103 (snd (snd run3)) = (fst run4, fst (snd run4), snd (snd run4))"
    by (simp add: run4_def next_call_def)
  have c5: "call_with_circuit_breaker (fst (snd run4)) ''stt'' (succeeding_op ''text'')
              (Some 3) (Some 30) 132 (snd (snd run4)) = (fst run5, fst (snd run5), snd (snd run5))"
    by (simp add: run5_def next_call_def)
  have e1: "fst (failing_op ''down'' 0) = Inl (OtherException ''ConnectError'' ''down'')"
    and e2: "fst (failing_op ''down'' (snd (snd run1))) = Inl (OtherException ''ConnectError'' ''down'')"
    and e3: "fst (failing_op ''down'' (snd (snd run2))) = Inl (OtherException ''ConnectError'' ''down'')"
    and ok: "fst (succeeding_op ''text'' (snd (snd run4))) = Inr ''text''"
    by (simp_all add: failing_op_def succeeding_op_def)
  have early: "(103::real) - 102 < real_of_int (int_or (Some 30)
                  (cfg_recovery_timeout (default_config CircuitBreakerManager_init)))"
    and late: "real_of_int (int_or (Some 30)
                  (cfg_recovery_timeout (default_config CircuitBreakerManager_init))) \<le> (132::real) - 102"
    by (simp_all add: int_or_def)
  from breaker_opens_rejects_and_recovers[OF fresh c1 c2 c3 c4 c5 e1 e2 e3 ok early late]
  have "get_circuit_breaker_state (fst (snd run3)) ''stt'' = Some OPEN"
    and "fst run4 = Inl (CircuitBreakerOpenError ''stt'')"
    and "snd (snd run4) = snd (snd run3)"
    and "fst run5 = Inr ''text''"
    and "get_circuit_breaker_state (fst (snd run5)) ''stt'' = Some CLOSED"
    by blast+
  moreover have "snd (snd run3) = 3" by (simp add: run3_eval)
  ultimately show ?thesis by simp
qed

text \<open>
  Against C1 as stated: at the end of the run the breaker is closed and the recorded
  \<^verbatim>\<open>failure_count\<close> is 3, not 0. Only \<^verbatim>\<open>reset_circuit_breaker\<close> sets it to 0.
\<close>

theorem failure_count_not_reset_counterexample:
  "get_circuit_breaker_state (fst (snd run5)) ''stt'' = Some CLOSED
   \<and> map_option failure_count (get_circuit_breaker_stats (fst (snd run5)) ''stt'') = Some 3
   \<and> map_option failure_count (get_circuit_breaker_stats (fst (snd run5)) ''stt'') \<noteq> Some 0"
  by (simp add: run5_eval get_circuit_breaker_state_def get_circuit_breaker_stats_def)

text \<open>
  Whatever the wrapped breaker announces, the listeners leave \<^verbatim>\<open>failure_count\<close> as it
  is; a call changes it only in the handler \<^verbatim>\<open>except Exception\<close>, by adding 1.
\<close>

lemma on_event_keeps_failure_count:
  "map_option failure_count (cb_stats (on_event nm now ev self) k) =
     map_option failure_count (cb_stats self k)"
  by (cases ev) (auto simp: update_stats_def split: option.splits)

lemma notify_keeps_failure_count:
  "map_option failure_count (cb_stats (notify nm now evs self) k) =
     map_option failure_count (cb_stats self k)"
  unfolding notify_def
  by (induction evs arbitrary: self) (simp_all add: on_event_keeps_failure_count)


lemma reset_zeroes_failure_count:
  assumes "circuit_breakers self nm = Some b" and "cb_stats self nm = Some s"
  shows "map_option failure_count (get_circuit_breaker_stats (snd (reset_circuit_breaker self nm)) nm)
           = Some 0
       \<and> get_circuit_breaker_state (snd (reset_circuit_breaker self nm)) nm = Some CLOSED"
  using assms
  by (simp add: reset_circuit_breaker_def update_stats_def store_breaker_def
      get_circuit_breaker_stats_def get_circuit_breaker_state_def)

subsection \<open>The two error paths\<close>

lemma call_not_open_raises:
  assumes b: "circuit_breakers self nm = Some b" and s: "cb_stats self nm = Some s"
    and no: "current_state b now \<noteq> ''open''"
    and e: "fst (func w) = Inl e"
    and c: "call_with_circuit_breaker self nm func ft rt now w = (r, self', w')"
  shows "r = Inl (if is_circuit_open_error e then e else ExternalServiceError nm (exc_str e))"
    and "w' = snd (func w)"
    and "map_option failure_count (cb_stats self' nm) =
           Some (failure_count s + (if is_circuit_open_error e then 0 else 1))"
    and "\<not> is_circuit_open_error e \<Longrightarrow>
           map_option last_failure_time (cb_stats self' nm) = Some (Some now)"
    and "map_option total_calls (cb_stats self' nm) = Some (total_calls s + 1)"
    and "map_option success_count (cb_stats self' nm) = Some (success_count s)"
proof -
  have g: "get_or_create_circuit_breaker self nm ft rt now = self"
    by (rule get_or_create_existing[OF b])
  define b1 where "b1 = fst (breaker_refresh b now)"
  have no1: "b_state b1 \<noteq> ''open''"
    using no by (simp add: current_state_def b1_def)
  have r1: "breaker_refresh b1 now = (b1, [])"
    using no1 by (simp add: breaker_refresh_def)
  have call: "breaker_call b1 func now w =
                (Inl e, fst (breaker_record b1 True now), snd (breaker_record b1 True now),
                 snd (func w))"
    using no1 r1 e by (simp add: breaker_call_def Let_def)
  have ev: "snd (breaker_refresh b now) = [] \<or> snd (breaker_refresh b now) = [HalfOpened]"
    by (simp add: breaker_refresh_def)
  have ev2: "snd (breaker_record b1 True now) = [] \<or> snd (breaker_record b1 True now) = [Opened]"
    by (simp add: breaker_record_def Let_def)
  have res: "(r, self', w') =
        (Inl (fst (handle_exception nm now e
                (notify nm now (snd (breaker_record b1 True now))
                  (store_breaker nm (fst (breaker_record b1 True now))
                    (notify nm now (snd (breaker_refresh b now))
                      (store_breaker nm b1
                        (update_stats nm (\<lambda>s. s\<lparr>total_calls := total_calls s + 1\<rparr>) self))))))),
         snd (handle_exception nm now e
                (notify nm now (snd (breaker_record b1 True now))
                  (store_breaker nm (fst (breaker_record b1 True now))
                    (notify nm now (snd (breaker_refresh b now))
                      (store_breaker nm b1
                        (update_stats nm (\<lambda>s. s\<lparr>total_calls := total_calls s + 1\<rparr>) self)))))),
         snd (func w))"
    using c b s no call
    by (simp add: call_with_circuit_breaker_def g update_stats_def store_breaker_def Let_def
        b1_def [symmetric])
  show "r = Inl (if is_circuit_open_error e then e else ExternalServiceError nm (exc_str e))"
    using res by (simp add: handle_exception_def)
  show "w' = snd (func w)" using res by simp
  show "map_option failure_count (cb_stats self' nm) =
           Some (failure_count s + (if is_circuit_open_error e then 0 else 1))"
    using res s ev ev2
    by (auto simp: handle_exception_def notify_def update_stats_def store_breaker_def)
  show "map_option last_failure_time (cb_stats self' nm) = Some (Some now)"
    if "\<not> is_circuit_open_error e"
    using that res s ev ev2
    by (auto simp: handle_exception_def notify_def update_stats_def store_breaker_def)
  show "map_option total_calls (cb_stats self' nm) = Some (total_calls s + 1)"
    using res s ev ev2
    by (auto simp: handle_exception_def notify_def update_stats_def store_breaker_def)
  show "map_option success_count (cb_stats self' nm) = Some (success_count s)"
    using res s ev ev2
    by (auto simp: handle_exception_def notify_def update_stats_def store_breaker_def)
qed

text \<open>
  C6, as the code has it. \<open>b\<close> and \<open>s\<close> are the breaker and the statistics that the
  call finds under the name (after creating them if the name is new).
  \<^item> If the breaker is open, the call raises \<^verbatim>\<open>CircuitBreakerOpenError(name)\<close>, the
    operation is not invoked (the world is unchanged), and of the counters only
    \<^verbatim>\<open>total_calls\<close> changes.
  \<^item> If the breaker is not open and the operation raises an exception other than a
    \<^verbatim>\<open>CircuitBreakerOpenError\<close>, the call raises
    \<^verbatim>\<open>ExternalServiceError(name, str(e))\<close>, \<^verbatim>\<open>failure_count\<close> grows by 1 and
    \<^verbatim>\<open>last_failure_time\<close> is the time of the call.
  \<^item> If the breaker is not open and the operation raises a \<^verbatim>\<open>CircuitBreakerOpenError\<close>
    of its own, that exception is passed on unchanged and \<^verbatim>\<open>failure_count\<close> stays.
  \<^item> The two exceptions are different classes: the handler for
    \<^verbatim>\<open>CircuitBreakerOpenError\<close> does not take an \<^verbatim>\<open>ExternalServiceError\<close>.
\<close>

theorem call_with_circuit_breaker_error_paths:
  assumes b: "circuit_breakers (get_or_create_circuit_breaker self nm ft rt now) nm = Some b"
    and s: "cb_stats (get_or_create_circuit_breaker self nm ft rt now) nm = Some s"
    and c: "call_with_circuit_breaker self nm func ft rt now w = (r, self', w')"
  shows "(current_state b now = ''open'' \<longrightarrow>
            r = Inl (CircuitBreakerOpenError nm) \<and> w' = w
          \<and> map_option success_count (cb_stats self' nm) = Some (success_count s)
          \<and> map_option failure_count (cb_stats self' nm) = Some (failure_count s)
          \<and> map_option total_calls (cb_stats self' nm) = Some (total_calls s + 1))
       \<and> (\<forall>e. current_state b now \<noteq> ''open'' \<and> fst (func w) = Inl e
                \<and> \<not> is_circuit_open_error e \<longrightarrow>
            r = Inl (ExternalServiceError nm (exc_str e)) \<and> w' = snd (func w)
          \<and> map_option failure_count (cb_stats self' nm) = Some (failure_count s + 1)
          \<and> map_option last_failure_time (cb_stats self' nm) = Some (Some now))
       \<and> (\<forall>e. current_state b now \<noteq> ''open'' \<and> fst (func w) = Inl e
                \<and> is_circuit_open_error e \<longrightarrow>
            r = Inl e \<and> w' = snd (func w)
          \<and> map_option failure_count (cb_stats self' nm) = Some (failure_count s))
       \<and> (\<forall>n m. CircuitBreakerOpenError nm \<noteq> ExternalServiceError n m
                \<and> \<not> is_circuit_open_error (ExternalServiceError n m))"
proof -
  define self1 where "self1 = get_or_create_circuit_breaker self nm ft rt now"
  have b1: "circuit_breakers self1 nm = Some b" and s1: "cb_stats self1 nm = Some s"
    using b s by (simp_all add: self1_def)
  have c1: "call_with_circuit_breaker self1 nm func ft rt now w = (r, self', w')"
    using c call_creates_first[of self nm func ft rt now w ft rt] by (simp add: self1_def)
  have A: "r = Inl (CircuitBreakerOpenError nm) \<and> w' = w
          \<and> map_option success_count (cb_stats self' nm) = Some (success_count s)
          \<and> map_option failure_count (cb_stats self' nm) = Some (failure_count s)
          \<and> map_option total_calls (cb_stats self' nm) = Some (total_calls s + 1)"
    if "current_state b now = ''open''"
    using c1 call_rejected[OF b1 s1 that, of func ft rt w] by auto
  have B: "r = Inl (ExternalServiceError nm (exc_str e)) \<and> w' = snd (func w)
          \<and> map_option failure_count (cb_stats self' nm) = Some (failure_count s + 1)
          \<and> map_option last_failure_time (cb_stats self' nm) = Some (Some now)"
    if "current_state b now \<noteq> ''open''" "fst (func w) = Inl e" "\<not> is_circuit_open_error e" for e
    using call_not_open_raises[OF b1 s1 that(1) that(2) c1] that(3) by simp
  have C: "r = Inl e \<and> w' = snd (func w)
          \<and> map_option failure_count (cb_stats self' nm) = Some (failure_count s)"
    if "current_state b now \<noteq> ''open''" "fst (func w) = Inl e" "is_circuit_open_error e" for e
    using call_not_open_raises(1-3)[OF b1 s1 that(1) that(2) c1] that(3) by simp
  from A B C show ?thesis by simp
qed

text \<open>
  The theorem on the runs above: the call on the open breaker (the fourth), and the
  failing call on the closed breaker (the second).
\<close>

theorem call_with_circuit_breaker_error_paths_witness:
  "fst run4 = Inl (CircuitBreakerOpenError ''stt'') \<and> snd (snd run4) = snd (snd run3)
   \<and> map_option failure_count (cb_stats (fst (snd run4)) ''stt'') = Some 3
   \<and> map_option total_calls (cb_stats (fst (snd run4)) ''stt'') = Some 4
   \<and> fst run2 = Inl (ExternalServiceError ''stt'' ''down'')
   \<and> map_option failure_count (cb_stats (fst (snd run2)) ''stt'') = Some 2
   \<and> map_option last_failure_time (cb_stats (fst (snd run2)) ''stt'') = Some (Some 101)"
proof -
  define b3 where "b3 = \<lparr>b_failure_threshold = 3, b_recovery_timeout = 30, b_state = ''open'',
                          b_failure_count = 3, b_last_failure = Some (102::real)\<rparr>"
  define s3 where "s3 = \<lparr>cb_name = ''stt'', state = OPEN, failure_count = 3, success_count = 0,
               total_calls = 3, last_failure_time = Some (102::real), last_success_time = None,
               recovery_timeout = 30, failure_threshold = 3, success_threshold = 3,
               call_timeout = 30, created_at = 100\<rparr>"
  have g3: "circuit_breakers (get_or_create_circuit_breaker (fst (snd run3)) ''stt'' (Some 3) (Some 30) 103) ''stt'' = Some b3"
    and h3: "cb_stats (get_or_create_circuit_breaker (fst (snd run3)) ''stt'' (Some 3) (Some 30) 103) ''stt'' = Some s3"
    by (simp_all add: run3_eval get_or_create_circuit_breaker_def b3_def s3_def)
  have c4: "call_with_circuit_breaker (fst (snd run3)) ''stt'' (succeeding_op ''text'')
              (Some 3) (Some 30) 103 (snd (snd run3)) = (fst run4, fst (snd run4), snd (snd run4))"
    by (simp add: run4_def next_call_def)
  have o3: "current_state b3 103 = ''open''"
    by (simp add: current_state_open_iff recovery_elapsed_def b3_def)
  from call_with_circuit_breaker_error_paths[OF g3 h3 c4] o3
  have p1: "fst run4 = Inl (CircuitBreakerOpenError ''stt'')" "snd (snd run4) = snd (snd run3)"
    "map_option failure_count (cb_stats (fst (snd run4)) ''stt'') = Some (failure_count s3)"
    "map_option total_calls (cb_stats (fst (snd run4)) ''stt'') = Some (total_calls s3 + 1)"
    by blast+
  define b1 where "b1 = \<lparr>b_failure_threshold = 3, b_recovery_timeout = 30, b_state = ''closed'',
                          b_failure_count = 1, b_last_failure = Some (100::real)\<rparr>"
  define s1 where "s1 = \<lparr>cb_name = ''stt'', state = CLOSED, failure_count = 1, success_count = 0,
               total_calls = 1, last_failure_time = Some (100::real), last_success_time = None,
               recovery_timeout = 30, failure_threshold = 3, success_threshold = 3,
               call_timeout = 30, created_at = 100\<rparr>"
  have g1: "circuit_breakers (get_or_create_circuit_breaker (fst (snd run1)) ''stt'' (Some 3) (Some 30) 101) ''stt'' = Some b1"
    and h1: "cb_stats (get_or_create_circuit_breaker (fst (snd run1)) ''stt'' (Some 3) (Some 30) 101) ''stt'' = Some s1"
    by (simp_all add: run1_eval get_or_create_circuit_breaker_def b1_def s1_def)
  have c2: "call_with_circuit_breaker (fst (snd run1)) ''stt'' (failing_op ''down'')
              (Some 3) (Some 30) 101 (snd (snd run1)) = (fst run2, fst (snd run2), snd (snd run2))"
    by (simp add: run2_def next_call_def)
  have n1: "current_state b1 101 \<noteq> ''open''"
    by (simp add: current_state_open_iff b1_def)
  have e: "fst (failing_op ''down'' (snd (snd run1))) = Inl (OtherException ''ConnectError'' ''down'')"
    by (simp add: failing_op_def)
  have ne: "\<not> is_circuit_open_error (OtherException ''ConnectError'' ''down'')" by simp
  from call_with_circuit_breaker_error_paths[OF g1 h1 c2] n1 e ne
  have p2: "fst run2 = Inl (ExternalServiceError ''stt'' (exc_str (OtherException ''ConnectError'' ''down'')))"
    "map_option failure_count (cb_stats (fst (snd run2)) ''stt'') = Some (failure_count s1 + 1)"
    "map_option last_failure_time (cb_stats (fst (snd run2)) ''stt'') = Some (Some 101)"
    by blast+
  from p1 p2 show ?thesis by (simp add: s3_def s1_def)
qed

text \<open>
  Against C6 as stated: the breaker \<^verbatim>\<open>outer\<close> is new, hence closed; the operation is
  invoked and raises \<^verbatim>\<open>CircuitBreakerOpenError("inner")\<close>. The call raises that very
  exception, not an \<^verbatim>\<open>ExternalServiceError\<close>, and the recorded \<^verbatim>\<open>failure_count\<close> stays 0.
\<close>

theorem operation_circuit_open_counterexample:
  "fst nested_run = Inl (CircuitBreakerOpenError ''inner'')
   \<and> fst nested_run \<noteq> Inl (ExternalServiceError ''outer'' (exc_str (CircuitBreakerOpenError ''inner'')))
   \<and> snd (snd nested_run) = 1
   \<and> map_option failure_count (cb_stats (fst (snd nested_run)) ''outer'') = Some 0
   \<and> map_option last_failure_time (cb_stats (fst (snd nested_run)) ''outer'') = Some None"
  by (simp add: nested_run_eval)

section \<open>Properties of the rate limiter\<close>

subsection \<open>The store calls of one check\<close>

lemma window_check_recorded:
  assumes "window_check (recorded store) client_id m w now (s, l) = (r, (s', l'))"
  shows "\<exists>new. l' = l @ new
           \<and> (some_call_raised new \<longrightarrow> isl r)
           \<and> (\<forall>k \<in> set (keys_touched new). k = rate_limit_key client_id (int_of_float now) w)
           \<and> (w \<noteq> 0 \<longrightarrow> new \<noteq> []
                \<and> fst (hd new) = GetCall (rate_limit_key client_id (int_of_float now) w))
           \<and> (r = Inr (True, 0) \<longrightarrow>
                IncrementCall (rate_limit_key client_id (int_of_float now) w) 1 \<in> fst ` set new)"
  using assms
  by (auto simp: window_check_def recorded_def Let_def some_call_raised_def keys_touched_def
      split: sum.splits if_splits option.splits)


lemma sliding_window_check_recorded:
  assumes "sliding_window_check (recorded store) client_id limit now (s, l) = (res, (s', l'))"
  shows "\<exists>new. l' = l @ new \<and> (some_call_raised new \<longrightarrow> res = (True, 0))"
proof (cases "parse_limit limit")
  case (Inl e)
  with assms show ?thesis by (simp add: sliding_window_check_def some_call_raised_def)
next
  case (Inr p)
  show ?thesis
  proof (cases p)
    case None
    with Inr assms show ?thesis by (simp add: sliding_window_check_def some_call_raised_def)
  next
    case (Some mw)
    obtain r sl where w: "window_check (recorded store) client_id (fst mw) (snd mw) now (s, l) = (r, sl)"
      by (cases "window_check (recorded store) client_id (fst mw) (snd mw) now (s, l)")
    obtain s1 l1 where sl: "sl = (s1, l1)" by (cases sl)
    from window_check_recorded[OF w[unfolded sl]] obtain new where
      n: "l1 = l @ new" and raised: "some_call_raised new \<longrightarrow> isl r"
      by blast
    from assms Inr Some w sl have res: "res = (case r of Inl e \<Rightarrow> (True, 0) | Inr v \<Rightarrow> v)"
      and l': "l' = l1"
      by (auto simp: sliding_window_check_def Let_def split: sum.splits)
    from raised res have "some_call_raised new \<longrightarrow> res = (True, 0)"
      by (cases r) auto
    with n l' show ?thesis by blast
  qed
qed

subsection \<open>Failing open\<close>

text \<open>
  C5. Whatever the store, the client and the limit: if any of the store operations that
  a rate-limit check performs raises, the check returns \<^verbatim>\<open>(True, {})\<close>, that is, it
  admits the request. (The function returns a pair in every case: no exception leaves
  \<^verbatim>\<open>check_rate_limit\<close>.)
\<close>

theorem check_rate_limit_fails_open:
  assumes "check_rate_limit (recorded store) self request limit key_func now (s, []) =
             ((allowed, info), self', (s', calls))"
    and "some_call_raised calls"
  shows "allowed \<and> info = None"
proof (cases "case key_func of None \<Rightarrow> Inr (remote_address request) | Some f \<Rightarrow> f request")
  case (Inl e)
  with assms(1) show ?thesis by (simp add: check_rate_limit_def)
next
  case (Inr client_id)
  define limit' where "limit' = (case limit of None \<Rightarrow> default_limit
                         | Some l \<Rightarrow> if l = [] then default_limit else l)"
  obtain res s1 l1 where
    sw: "sliding_window_check (recorded store) client_id limit' now (s, []) = (res, (s1, l1))"
    by (metis surj_pair)
  from assms(1) Inr sw have calls: "calls = l1"
    and out: "(allowed, info) =
                (if \<not> fst res
                 then (False, Some \<lparr>info_error = ''Rate limit exceeded'',
                                    info_retry_after = snd res,
                                    info_limit = limit', info_client_id = client_id\<rparr>)
                 else (True, None))"
    by (auto simp: check_rate_limit_def Let_def limit'_def split: if_splits)
  from sliding_window_check_recorded[OF sw] assms(2) calls have "res = (True, 0)"
    by auto
  with out show ?thesis by simp
qed

lemma check_on_failing_store_eval:
  "fst check_on_failing_store = (True, None)
   \<and> snd (snd (snd check_on_failing_store)) = [(GetCall ''rate_limit:10.0.0.1:1'', True)]"
  by (simp add: check_on_failing_store_def check_rate_limit_def sliding_window_check_def
      window_check_def recorded_def failing_store_def request_from_def rate_limit_key_def
      parse_limit_def py_split_def py_int_def py_strip_def is_space_def numeric_char_def int_max_str_digits_def unsigned_value_def
      digit_val_def int_of_float_def str_int_def digit_char_def Let_def)

theorem check_rate_limit_fails_open_witness:
  "some_call_raised (snd (snd (snd check_on_failing_store)))
   \<and> fst (fst check_on_failing_store) \<and> snd (fst check_on_failing_store) = None"
proof -
  have c: "check_rate_limit (recorded failing_store) RateLimiter_init (request_from ''10.0.0.1'')
             (Some ''5/60seconds'') None 125 ((), []) =
           ((fst (fst check_on_failing_store), snd (fst check_on_failing_store)),
            fst (snd check_on_failing_store),
            (fst (snd (snd check_on_failing_store)), snd (snd (snd check_on_failing_store))))"
    by (simp add: check_on_failing_store_def prod_eq_iff)
  have r: "some_call_raised (snd (snd (snd check_on_failing_store)))"
    by (simp add: check_on_failing_store_eval some_call_raised_def)
  from check_rate_limit_fails_open[OF c r] r show ?thesis by simp
qed

subsection \<open>The key of a window\<close>

lemma div_minus_self:
  fixes a b :: int
  assumes "b \<noteq> 0"
  shows "(a - b) div b = a div b - 1"
proof -
  have "a div b = ((a - b) + b) div b" by simp
  also have "\<dots> = (a - b) div b + 1" using assms by (rule div_add_self2)
  finally show ?thesis by simp
qed

lemma rate_limit_key_index:
  "window_seconds \<noteq> 0 \<Longrightarrow>
   rate_limit_key client_id current_time window_seconds =
     ''rate_limit:'' @ client_id @ '':'' @ str_int (current_time div window_seconds - 1)"
  by (simp add: rate_limit_key_def div_minus_self)

lemma parse_limit_control_character:
  "parse_limit (''0/'' @ [CHR 0x1F] @ ''60seconds'') = Inl (int_literal_error (CHR 0x1F # ''60''))"
  by (simp add: parse_limit_def py_split_def py_int_def py_strip_def is_space_def
      numeric_char_def int_max_str_digits_def unsigned_value_def digit_val_def Let_def)

text \<open>
  C8, as the code has it. Let \<open>t\<close> be the clock reading in whole seconds,
  \<^verbatim>\<open>int(time.time())\<close>. In a check at \<open>t\<close> under a limit that \<^verbatim>\<open>_sliding_window_check\<close>
  parses, with a window of \<open>window_seconds\<close> (not zero), every store call is made on one
  key, the key \<^verbatim>\<open>rate_limit:<client>:<n>\<close> where \<open>n\<close> is
  \<open>floor((t - window_seconds) / window_seconds)\<close>, which is
  \<open>floor(t / window_seconds) - 1\<close>: the first call reads that key, and a check that
  admits the request after counting has incremented it by 1.
\<close>

theorem sliding_window_check_key:
  assumes "parse_limit limit = Inr (Some (max_requests, window_seconds))"
    and "window_seconds \<noteq> 0"
    and "sliding_window_check (recorded store) client_id limit now (s, []) = (res, (s', calls))"
  shows "calls \<noteq> []
       \<and> fst (hd calls) =
           GetCall (''rate_limit:'' @ client_id @ '':'' @
                      str_int (int_of_float now div window_seconds - 1))
       \<and> (\<forall>k \<in> set (keys_touched calls).
             k = ''rate_limit:'' @ client_id @ '':'' @
                   str_int (int_of_float now div window_seconds - 1))
       \<and> (res = (True, 0) \<and> \<not> some_call_raised calls \<longrightarrow>
             IncrementCall (''rate_limit:'' @ client_id @ '':'' @
                              str_int (int_of_float now div window_seconds - 1)) 1
               \<in> fst ` set calls)
       \<and> int_of_float now div window_seconds - 1
           = (int_of_float now - window_seconds) div window_seconds"
proof -
  obtain r sl where w: "window_check (recorded store) client_id max_requests window_seconds now (s, [])
                          = (r, sl)"
    by (metis surj_pair)
  obtain s1 l1 where sl: "sl = (s1, l1)" by (cases sl)
  from assms(1,3) w sl have calls: "calls = l1"
    and res: "res = (case r of Inl e \<Rightarrow> (True, 0) | Inr v \<Rightarrow> v)"
    by (auto simp: sliding_window_check_def Let_def split: sum.splits)
  let ?K = "rate_limit_key client_id (int_of_float now) window_seconds"
  from window_check_recorded[OF w[unfolded sl]] assms(2) calls
  have ne: "calls \<noteq> []" and hd: "fst (hd calls) = GetCall ?K"
    and all: "\<forall>k \<in> set (keys_touched calls). k = ?K"
    and raised: "some_call_raised calls \<longrightarrow> isl r"
    and inc: "r = Inr (True, 0) \<longrightarrow> IncrementCall ?K 1 \<in> fst ` set calls"
    by auto
  have inc': "IncrementCall ?K 1 \<in> fst ` set calls"
    if "res = (True, 0)" "\<not> some_call_raised calls"
  proof (cases r)
    case (Inl e)
    from assms(2) w sl Inl calls that(2) show ?thesis
      by (auto simp: window_check_def recorded_def Let_def some_call_raised_def
          split: sum.splits if_splits option.splits)
  next
    case (Inr v)
    with res that(1) inc show ?thesis by simp
  qed
  have K: "?K = ''rate_limit:'' @ client_id @ '':'' @
                  str_int (int_of_float now div window_seconds - 1)"
    by (rule rate_limit_key_index[OF assms(2)])
  from ne hd all inc' show ?thesis
    unfolding K using div_minus_self[OF assms(2), of "int_of_float now"] by simp
qed

lemma parse_limit_5_60: "parse_limit ''5/60seconds'' = Inr (Some (5, 60))"
  by (simp add: parse_limit_def py_split_def py_int_def py_strip_def is_space_def numeric_char_def int_max_str_digits_def
      unsigned_value_def digit_val_def Let_def)

lemma check_at_60_eval:
  "fst check_at_60 = (True, 0)
   \<and> snd (snd check_at_60) =
       [(GetCall ''rate_limit:c:0'', False), (IncrementCall ''rate_limit:c:0'' 1, False),
        (SetCall ''rate_limit:c:0'' 1 (Some 60), False)]"
  by (simp add: check_at_60_def sliding_window_check_def parse_limit_5_60 window_check_def
      recorded_def cache_service_def cache_get_def cache_set_def cache_increment_def
      CacheService_init_def rate_limit_key_def int_of_float_def str_int_def digit_char_def
      int_or_def CACHE_TTL_def Let_def)

theorem sliding_window_check_key_witness:
  "keys_touched (snd (snd check_at_60)) = [''rate_limit:c:0'', ''rate_limit:c:0'', ''rate_limit:c:0'']
   \<and> ''rate_limit:c:'' @ str_int (int_of_float 60 div 60 - 1) = ''rate_limit:c:0''
   \<and> (IncrementCall ''rate_limit:c:0'' 1 \<in> fst ` set (snd (snd check_at_60)))"
proof -
  have c: "sliding_window_check (recorded cache_service) ''c'' ''5/60seconds'' 60 (CacheService_init, [])
             = (fst check_at_60, (fst (snd check_at_60), snd (snd check_at_60)))"
    by (simp add: check_at_60_def)
  have nz: "(60::int) \<noteq> 0" by simp
  have k: "''rate_limit:c:'' @ str_int (int_of_float 60 div 60 - 1) = ''rate_limit:c:0''"
    by (simp add: int_of_float_def str_int_def digit_char_def)
  have ok: "fst check_at_60 = (True, 0) \<and> \<not> some_call_raised (snd (snd check_at_60))"
    by (simp add: check_at_60_eval some_call_raised_def)
  from sliding_window_check_key[OF parse_limit_5_60 nz c] ok
  have "IncrementCall (''rate_limit:'' @ ''c'' @ '':'' @ str_int (int_of_float 60 div 60 - 1)) 1
          \<in> fst ` set (snd (snd check_at_60))"
    by blast
  then have "IncrementCall ''rate_limit:c:0'' 1 \<in> fst ` set (snd (snd check_at_60))"
    using k by simp
  moreover have "keys_touched (snd (snd check_at_60)) =
                   [''rate_limit:c:0'', ''rate_limit:c:0'', ''rate_limit:c:0'']"
    by (simp add: check_at_60_eval keys_touched_def)
  ultimately show ?thesis using k by simp
qed

text \<open>
  Against C8 as stated: at \<open>now = 60\<close> with a window of 60 seconds the window index
  \<open>floor(now / window_seconds)\<close> is 1, but the key read, incremented and set is
  \<^verbatim>\<open>rate_limit:c:0\<close>.
\<close>

theorem window_index_counterexample:
  "int_of_float 60 div 60 = 1
   \<and> keys_touched (snd (snd check_at_60)) =
       [''rate_limit:c:0'', ''rate_limit:c:0'', ''rate_limit:c:0'']
   \<and> ''rate_limit:c:0'' \<noteq> ''rate_limit:c:'' @ str_int (int_of_float 60 div 60)"
  by (simp add: check_at_60_eval keys_touched_def int_of_float_def str_int_def digit_char_def)

subsection \<open>The in-memory cache\<close>



lemma cache_get_result: "fst (cache_get k now s) = live_count s k now"
  by (simp add: cache_get_def live_count_def split: option.splits)







lemma cache_increment_result:
  "fst (cache_increment k amount now s) =
     Some ((case live_count s k now of None \<Rightarrow> 0 | Some c \<Rightarrow> c) + amount)"
  by (simp add: cache_increment_def cache_get_result Let_def)




subsection \<open>One check on the in-memory cache\<close>








subsection \<open>Keys of different windows differ\<close>









subsection \<open>Times and windows\<close>




subsection \<open>Five requests per minute\<close>



section \<open>Properties of the WebSocket manager\<close>

subsection \<open>Sending to an unknown connection\<close>

text \<open>
  C9. For a connection id that is not in the table of active connections,
  \<^verbatim>\<open>send_message\<close> returns \<^verbatim>\<open>False\<close>; it raises nothing and leaves the manager (and
  the message) as they were, whether or not the socket would have taken the write.
\<close>

theorem send_message_unknown_connection:
  assumes "cid \<notin> fst ` set (active_connections self)"
  shows "send_message self cid msg message_type send_ok now uuid = (False, msg, self)"
  using assms by (simp add: send_message_def)

theorem send_message_unknown_connection_witness:
  "''c9'' \<notin> fst ` set (active_connections WebSocketManager_init)
   \<and> send_message WebSocketManager_init ''c9'' [(''type'', JStr ''pong'')] None True 7 ''m1''
       = (False, [(''type'', JStr ''pong'')], WebSocketManager_init)"
proof -
  have a: "''c9'' \<notin> fst ` set (active_connections WebSocketManager_init)"
    by (simp add: WebSocketManager_init_def)
  from a send_message_unknown_connection[OF a] show ?thesis by simp
qed

subsection \<open>The indexes stay empty\<close>

lemma disconnect_indexes_empty:
  assumes "user_connections self = Map.empty" and "session_connections self = Map.empty"
  shows "user_connections (disconnect self cid) = Map.empty
       \<and> session_connections (disconnect self cid) = Map.empty"
  using assms
  by (auto simp: disconnect_def Let_def discard_from_index_def split: option.splits)

lemma send_message_indexes_empty:
  assumes "user_connections self = Map.empty" and "session_connections self = Map.empty"
  shows "user_connections (snd (snd (send_message self cid msg ty ok now uuid))) = Map.empty
       \<and> session_connections (snd (snd (send_message self cid msg ty ok now uuid))) = Map.empty"
  using assms disconnect_indexes_empty[OF assms, of cid]
  by (simp add: send_message_def Let_def)

lemma send_each_indexes_empty:
  assumes "user_connections self = Map.empty" and "session_connections self = Map.empty"
  shows "user_connections (send_each self cid ms oks now uuid) = Map.empty
       \<and> session_connections (send_each self cid ms oks now uuid) = Map.empty"
  using assms
proof (induction ms arbitrary: self oks)
  case Nil
  then show ?case by simp
next
  case (Cons m ms)
  from send_message_indexes_empty[OF Cons.prems]
  show ?case by (simp add: Cons.IH)
qed

lemma broadcast_loop_indexes_empty:
  assumes "user_connections self = Map.empty" and "session_connections self = Map.empty"
  shows "user_connections (snd (snd (broadcast_loop cids ex wire now uuid (n, msg, self)))) = Map.empty
       \<and> session_connections (snd (snd (broadcast_loop cids ex wire now uuid (n, msg, self)))) = Map.empty"
  using assms
proof (induction cids arbitrary: n msg self)
  case Nil
  then show ?case by simp
next
  case (Cons cid cids)
  show ?case
  proof (cases "cid \<in> ex")
    case True
    with Cons show ?thesis by simp
  next
    case False
    obtain ok msg' self' where s: "send_message self cid msg None (wire cid) now uuid = (ok, msg', self')"
      by (metis surj_pair)
    from send_message_indexes_empty[OF Cons.prems, of cid msg None "wire cid" now uuid] s
    have "user_connections self' = Map.empty" "session_connections self' = Map.empty"
      by simp_all
    from Cons.IH[OF this] False s show ?thesis by simp
  qed
qed

lemma fold_disconnect_indexes_empty:
  assumes "user_connections self = Map.empty" and "session_connections self = Map.empty"
  shows "user_connections (fold (\<lambda>cid s. disconnect s cid) cids self) = Map.empty
       \<and> session_connections (fold (\<lambda>cid s. disconnect s cid) cids self) = Map.empty"
  using assms
proof (induction cids arbitrary: self)
  case Nil
  then show ?case by simp
next
  case (Cons cid cids)
  from disconnect_indexes_empty[OF Cons.prems, of cid]
  show ?case by (simp add: Cons.IH)
qed

lemma ws_step_indexes_empty:
  assumes "user_connections self = Map.empty" and "session_connections self = Map.empty"
  shows "user_connections (ws_step ev self) = Map.empty
       \<and> session_connections (ws_step ev self) = Map.empty"
proof (cases ev)
  case Initialize
  with assms show ?thesis by (simp add: initialize_def)
next
  case (Accept websocket cid accept_ok send_ok now uuid)
  show ?thesis
  proof (cases accept_ok)
    case False
    with Accept disconnect_indexes_empty[OF assms, of cid] show ?thesis
      by (simp add: accept_connection_def)
  next
    case True
    with Accept assms show ?thesis
      by (simp add: accept_connection_def Let_def send_message_indexes_empty)
  qed
next
  case (Receive cid fr answers oks now uuid)
  with assms show ?thesis
    by (cases fr) (simp_all add: handle_frame_def Let_def send_each_indexes_empty del: send_each.simps)
next
  case (Send cid msg ty ok now uuid)
  with send_message_indexes_empty[OF assms] show ?thesis by simp
next
  case (Broadcast msg ex wire now uuid)
  with broadcast_loop_indexes_empty[OF assms] show ?thesis
    by (simp add: broadcast_message_def)
next
  case (Disconnect cid)
  with disconnect_indexes_empty[OF assms] show ?thesis by simp
next
  case (Sweep now)
  with fold_disconnect_indexes_empty[OF assms] show ?thesis
    by (simp add: cleanup_sweep_def Let_def)
next
  case Shutdown
  with assms show ?thesis
    by (simp add: shutdown_def fold_disconnect_indexes_empty)
qed

lemma run_indexes_empty:
  "user_connections (fold ws_step evs self) = Map.empty
   \<and> session_connections (fold ws_step evs self) = Map.empty"
  if "user_connections self = Map.empty" and "session_connections self = Map.empty"
  using that
proof (induction evs arbitrary: self)
  case Nil
  then show ?case by simp
next
  case (Cons ev evs)
  from ws_step_indexes_empty[OF Cons.prems, of ev]
  show ?case by (simp add: Cons.IH)
qed

subsection \<open>Indexes that agree with the connection records\<close>

lemma consistent_stats [simp]: "consistent (self\<lparr>ws_stats := x\<rparr>) = consistent self"
  by (simp add: consistent_def index_agrees_def)

lemma consistent_running [simp]: "consistent (self\<lparr>running := x\<rparr>) = consistent self"
  by (simp add: consistent_def index_agrees_def)

lemma consistent_init: "consistent WebSocketManager_init"
  by (simp add: consistent_def index_agrees_def WebSocketManager_init_def)

lemma keys_delete: "fst ` set (AList.delete k al) = fst ` set al - {k}"
  by (induction al) auto

lemma discard_sub:
  assumes "discard_from_index owner cid index u = Some ids'"
  shows "\<exists>ids. index u = Some ids \<and> ids' \<subseteq> ids"
  using assms
  by (auto simp: discard_from_index_def split: option.splits if_splits)

lemma discard_removes:
  assumes "index_agrees owner index self"
    and "map_of (connection_info self) cid = Some i"
    and "discard_from_index (owner i) cid index u = Some ids'"
  shows "cid \<notin> ids'"
proof
  assume in': "cid \<in> ids'"
  from discard_sub[OF assms(3)] obtain ids where ids: "index u = Some ids" "ids' \<subseteq> ids" by blast
  with in' have "cid \<in> ids" by blast
  with assms(1) ids(1) have u: "u \<noteq> []"
    and "\<exists>j. map_of (connection_info self) cid = Some j \<and> owner j = Some u"
    unfolding index_agrees_def by blast+
  with assms(2) have o: "owner i = Some u" by auto
  from assms(3) o u ids(1) in' show False
    by (auto simp: discard_from_index_def split: if_splits)
qed

lemma index_agrees_absent:
  assumes "index_agrees owner index self"
    and "map_of (connection_info self) cid = None"
    and "index u = Some ids"
  shows "cid \<notin> ids"
  using assms unfolding index_agrees_def by fastforce

lemma consistent_disconnect:
  assumes "consistent self"
  shows "consistent (disconnect self cid)"
proof -
  from assms have da: "distinct (map fst (active_connections self))"
    and di: "distinct (map fst (connection_info self))"
    and au: "index_agrees user_id (user_connections self) self"
    and as: "index_agrees session_id (session_connections self) self"
    by (simp_all add: consistent_def)
  define act' where "act' = (if cid \<in> fst ` set (active_connections self)
                   then AList.delete cid (active_connections self) else active_connections self)"
  have act_keys: "fst ` set act' = fst ` set (active_connections self) - {cid}"
    by (auto simp: act'_def keys_delete)
  have act_dist: "distinct (map fst act')"
    using da by (simp add: act'_def distinct_delete)
  show ?thesis
  proof (cases "map_of (connection_info self) cid")
    case None
    have eq: "disconnect self cid =
                self\<lparr>active_connections := act',
                     ws_stats := (ws_stats self)
                       \<lparr>disconnections := disconnections (ws_stats self) + 1,
                        current_connections := int (length act')\<rparr>\<rparr>"
      using None by (simp add: disconnect_def Let_def act'_def)
    have keep: "index_agrees owner index (disconnect self cid)"
      if "index_agrees owner index self" for owner index
      unfolding index_agrees_def
    proof (intro allI impI)
      fix u ids c
      assume a: "index u = Some ids \<and> c \<in> ids"
      with that have b: "u \<noteq> [] \<and> c \<in> fst ` set (active_connections self)
        \<and> (\<exists>i. map_of (connection_info self) c = Some i \<and> owner i = Some u)"
        unfolding index_agrees_def by blast
      with None have "c \<noteq> cid" by auto
      with b act_keys show "u \<noteq> [] \<and> c \<in> fst ` set (active_connections (disconnect self cid))
        \<and> (\<exists>i. map_of (connection_info (disconnect self cid)) c = Some i \<and> owner i = Some u)"
        by (simp add: eq)
    qed
    have u': "user_connections (disconnect self cid) = user_connections self"
      and s': "session_connections (disconnect self cid) = session_connections self"
      and a': "active_connections (disconnect self cid) = act'"
      and i': "connection_info (disconnect self cid) = connection_info self"
      by (simp_all add: eq)
    show ?thesis
      unfolding consistent_def u' s'
      using keep[OF au] keep[OF as] act_dist di by (simp add: a' i')
  next
    case (Some i)
    define info' where "info' = AList.delete cid (connection_info self)"
    define self1 where "self1 = self\<lparr>active_connections := act'\<rparr>"
    have eq: "disconnect self cid =
                self\<lparr>active_connections := act',
                     user_connections := discard_from_index (user_id i) cid (user_connections self),
                     session_connections :=
                       discard_from_index (session_id i) cid (session_connections self),
                     connection_info := info',
                     ws_stats := (ws_stats self)
                       \<lparr>disconnections := disconnections (ws_stats self) + 1,
                        current_connections := int (length act')\<rparr>\<rparr>"
      using Some by (simp add: disconnect_def Let_def act'_def info'_def)
    have info_other: "map_of info' c = map_of (connection_info self) c" if "c \<noteq> cid" for c
      using that by (simp add: info'_def delete_conv')
    have agree: "u \<noteq> [] \<and> c \<in> fst ` set act'
                 \<and> (\<exists>j. map_of info' c = Some j \<and> owner j = Some u)"
      if ag: "index_agrees owner index self"
        and d: "discard_from_index (owner i) cid index u = Some ids'" and c: "c \<in> ids'"
      for owner index u ids' c
    proof -
      from discard_removes[OF ag Some d] c have ne: "c \<noteq> cid" by auto
      from discard_sub[OF d] c obtain ids where "index u = Some ids" "c \<in> ids" by blast
      with ag have "u \<noteq> [] \<and> c \<in> fst ` set (active_connections self)
        \<and> (\<exists>j. map_of (connection_info self) c = Some j \<and> owner j = Some u)"
        unfolding index_agrees_def by blast
      with ne act_keys info_other[OF ne] show ?thesis by simp
    qed
    have dinfo: "distinct (map fst info')" using di by (simp add: info'_def distinct_delete)
    have u': "user_connections (disconnect self cid) =
                discard_from_index (user_id i) cid (user_connections self)"
      and s': "session_connections (disconnect self cid) =
                discard_from_index (session_id i) cid (session_connections self)"
      and a': "active_connections (disconnect self cid) = act'"
      and i': "connection_info (disconnect self cid) = info'"
      by (simp_all add: eq)
    have "index_agrees user_id (user_connections (disconnect self cid)) (disconnect self cid)"
      unfolding index_agrees_def u' a' i' using agree[OF au] by blast
    moreover
    have "index_agrees session_id (session_connections (disconnect self cid)) (disconnect self cid)"
      unfolding index_agrees_def s' a' i' using agree[OF as] by blast
    ultimately show ?thesis
      unfolding consistent_def using act_dist dinfo by (simp add: a' i')
  qed
qed

lemma consistent_send_message:
  assumes "consistent self"
  shows "consistent (snd (snd (send_message self cid msg ty ok now uuid)))"
  using assms consistent_disconnect[OF assms, of cid]
  by (simp add: send_message_def Let_def)

lemma consistent_send_each:
  assumes "consistent self"
  shows "consistent (send_each self cid ms oks now uuid)"
  using assms
proof (induction ms arbitrary: self oks)
  case Nil
  then show ?case by simp
next
  case (Cons m ms)
  from consistent_send_message[OF Cons.prems]
  show ?case by (simp add: Cons.IH)
qed

lemma consistent_broadcast_loop:
  assumes "consistent self"
  shows "consistent (snd (snd (broadcast_loop cids ex wire now uuid (n, msg, self))))"
  using assms
proof (induction cids arbitrary: n msg self)
  case Nil
  then show ?case by simp
next
  case (Cons cid cids)
  show ?case
  proof (cases "cid \<in> ex")
    case True
    with Cons show ?thesis by simp
  next
    case False
    obtain ok msg' self' where s: "send_message self cid msg None (wire cid) now uuid = (ok, msg', self')"
      by (metis surj_pair)
    from consistent_send_message[OF Cons.prems, of cid msg None "wire cid" now uuid] s
    have "consistent self'" by simp
    from Cons.IH[OF this] False s show ?thesis by simp
  qed
qed

lemma consistent_fold_disconnect:
  assumes "consistent self"
  shows "consistent (fold (\<lambda>cid s. disconnect s cid) cids self)"
  using assms
proof (induction cids arbitrary: self)
  case Nil
  then show ?case by simp
next
  case (Cons cid cids)
  from consistent_disconnect[OF Cons.prems, of cid]
  show ?case by (simp add: Cons.IH)
qed

text \<open>Storing a record under an id changes nothing for the indexes when the owners stay.\<close>

lemma index_agrees_store:
  assumes ag: "index_agrees owner index self"
    and keep: "\<And>j. map_of (connection_info self) cid = Some j \<Longrightarrow> owner i = owner j"
    and absent: "map_of (connection_info self) cid = None \<Longrightarrow> cid \<notin> fst ` set (active_connections self)"
    and act: "fst ` set (active_connections self) \<subseteq> fst ` set act'"
  shows "index_agrees owner index
           (self\<lparr>active_connections := act',
                 connection_info := AList.update cid i (connection_info self)\<rparr>)"
  unfolding index_agrees_def
proof (intro allI impI)
  fix u ids c
  assume a: "index u = Some ids \<and> c \<in> ids"
  with ag have b: "u \<noteq> []" "c \<in> fst ` set (active_connections self)"
    and "\<exists>j. map_of (connection_info self) c = Some j \<and> owner j = Some u"
    unfolding index_agrees_def by blast+
  then obtain j where j: "map_of (connection_info self) c = Some j" "owner j = Some u" by blast
  have "\<exists>j'. map_of (AList.update cid i (connection_info self)) c = Some j' \<and> owner j' = Some u"
  proof (cases "c = cid")
    case True
    with j keep[of j] show ?thesis by (simp add: update_conv')
  next
    case False
    with j show ?thesis by (simp add: update_conv')
  qed
  with b act show "u \<noteq> []
      \<and> c \<in> fst ` set (active_connections (self\<lparr>active_connections := act',
                 connection_info := AList.update cid i (connection_info self)\<rparr>))
      \<and> (\<exists>ia. map_of (connection_info (self\<lparr>active_connections := act',
                 connection_info := AList.update cid i (connection_info self)\<rparr>)) c = Some ia
            \<and> owner ia = Some u)"
    by auto
qed

lemma consistent_accept:
  assumes c: "consistent self"
    and fresh: "cid \<notin> fst ` set (active_connections self)" "cid \<notin> fst ` set (connection_info self)"
  shows "consistent (accept_connection self websocket cid accept_ok send_ok now uuid)"
proof (cases accept_ok)
  case False
  with consistent_disconnect[OF c, of cid] show ?thesis by (simp add: accept_connection_def)
next
  case True
  define info where "info = \<lparr>connection_id = cid,
                     client_ip = dict_get_or (ws_client_host websocket) ''unknown'',
                     conn_user_agent = dict_get_or (ws_user_agent websocket) ''unknown'',
                     connected_at = now, last_activity = now, message_count = 0,
                     user_id = None, session_id = None\<rparr>"
  define act' where "act' = AList.update cid websocket (active_connections self)"
  define self1 where "self1 = self\<lparr>active_connections := act',
                          connection_info := AList.update cid info (connection_info self)\<rparr>"
  from c have da: "distinct (map fst (active_connections self))"
    and di: "distinct (map fst (connection_info self))"
    and au: "index_agrees user_id (user_connections self) self"
    and as: "index_agrees session_id (session_connections self) self"
    by (simp_all add: consistent_def)
  have none: "map_of (connection_info self) cid = None"
    using fresh(2) by (simp add: map_of_eq_None_iff)
  have sub: "fst ` set (active_connections self) \<subseteq> fst ` set act'"
    by (auto simp: act'_def dom_update)
  have "index_agrees user_id (user_connections self) self1"
    unfolding self1_def by (rule index_agrees_store[OF au _ _ sub]) (simp_all add: none fresh)
  moreover have "index_agrees session_id (session_connections self) self1"
    unfolding self1_def by (rule index_agrees_store[OF as _ _ sub]) (simp_all add: none fresh)
  moreover have "distinct (map fst (active_connections self1))"
    "distinct (map fst (connection_info self1))"
    using da di by (simp_all add: self1_def act'_def distinct_update)
  ultimately have c1: "consistent self1"
    by (simp add: consistent_def self1_def)
  have "accept_connection self websocket cid accept_ok send_ok now uuid =
          snd (snd (send_message
            (self1\<lparr>ws_stats := (ws_stats self)
                            \<lparr>total_connections := total_connections (ws_stats self) + 1,
                             current_connections := int (length act')\<rparr>\<rparr>) cid
                        [(''type'', JStr ''connection_established''),
                         (''data'', JDict [(''connection_id'', JStr cid),
                                           (''server_time'', JNum now),
                                           (''features'', JList [JStr ''voice_input'',
                                              JStr ''text_input'', JStr ''real_time_responses''])])]
                        None send_ok now uuid))"
    using True by (simp add: accept_connection_def Let_def self1_def act'_def info_def)
  then show ?thesis
    using c1 by (simp add: consistent_send_message)
qed

lemma consistent_handle_frame:
  assumes c: "consistent self"
  shows "consistent (handle_frame self cid fr answers oks now uuid)"
proof (cases fr)
  case InvalidJson
  with c show ?thesis by (simp add: handle_frame_def consistent_send_each del: send_each.simps)
next
  case InvalidMessage
  with c show ?thesis by (simp add: handle_frame_def consistent_send_each del: send_each.simps)
next
  case (Frame ty data)
  define info' where "info' = (case map_of (connection_info self) cid of
                          None \<Rightarrow> connection_info self
                        | Some i \<Rightarrow>
                            AList.update cid
                              (i\<lparr>last_activity := now, message_count := message_count i + 1\<rparr>)
                              (connection_info self))"
  have c1: "consistent (self\<lparr>connection_info := info'\<rparr>)"
  proof (cases "map_of (connection_info self) cid")
    case None
    then have "info' = connection_info self" by (simp add: info'_def)
    with c show ?thesis by simp
  next
    case (Some i)
    let ?i = "i\<lparr>last_activity := now, message_count := message_count i + 1\<rparr>"
    from c have da: "distinct (map fst (active_connections self))"
      and di: "distinct (map fst (connection_info self))"
      and au: "index_agrees user_id (user_connections self) self"
      and as: "index_agrees session_id (session_connections self) self"
      by (simp_all add: consistent_def)
    have i': "info' = AList.update cid ?i (connection_info self)"
      using Some by (simp add: info'_def)
    have eq: "self\<lparr>connection_info := info'\<rparr> =
                self\<lparr>active_connections := active_connections self,
                     connection_info := AList.update cid ?i (connection_info self)\<rparr>"
      by (simp add: i')
    have "index_agrees user_id (user_connections self) (self\<lparr>connection_info := info'\<rparr>)"
      unfolding eq by (rule index_agrees_store[OF au]) (simp_all add: Some)
    moreover
    have "index_agrees session_id (session_connections self) (self\<lparr>connection_info := info'\<rparr>)"
      unfolding eq by (rule index_agrees_store[OF as]) (simp_all add: Some)
    ultimately show ?thesis
      using da di by (simp add: consistent_def i' distinct_update)
  qed
  have "handle_frame self cid fr answers oks now uuid =
          send_each (self\<lparr>connection_info := info',
                            ws_stats := (ws_stats self)
                              \<lparr>messages_received := messages_received (ws_stats self) + 1\<rparr>\<rparr>)
            cid answers oks now uuid"
    using Frame by (simp add: handle_frame_def Let_def info'_def del: send_each.simps)
  with c1 show ?thesis by (simp add: consistent_send_each del: send_each.simps)
qed

lemma consistent_step:
  assumes "consistent self" and "fresh_id ev self"
  shows "consistent (ws_step ev self)"
proof (cases ev)
  case Initialize
  with assms show ?thesis by (simp add: initialize_def)
next
  case (Accept websocket cid accept_ok send_ok now uuid)
  with assms show ?thesis by (simp add: consistent_accept)
next
  case (Receive cid fr answers oks now uuid)
  with assms show ?thesis by (simp add: consistent_handle_frame)
next
  case (Send cid msg ty ok now uuid)
  with assms show ?thesis by (simp add: consistent_send_message)
next
  case (Broadcast msg ex wire now uuid)
  with assms show ?thesis by (simp add: broadcast_message_def consistent_broadcast_loop)
next
  case (Disconnect cid)
  with assms show ?thesis by (simp add: consistent_disconnect)
next
  case (Sweep now)
  with assms show ?thesis by (simp add: cleanup_sweep_def Let_def consistent_fold_disconnect)
next
  case Shutdown
  with assms show ?thesis by (simp add: shutdown_def consistent_fold_disconnect)
qed

lemma consistent_indexed:
  assumes "consistent self"
  shows "indexed_ids self \<subseteq> primary_ids self"
proof
  fix c
  assume "c \<in> indexed_ids self"
  then consider u ids where "user_connections self u = Some ids" "c \<in> ids"
    | s ids where "session_connections self s = Some ids" "c \<in> ids"
    by (auto simp: indexed_ids_def ran_def)
  then show "c \<in> primary_ids self"
  proof cases
    case 1
    with assms have "c \<in> fst ` set (active_connections self)"
      and "\<exists>i. map_of (connection_info self) c = Some i"
      unfolding consistent_def index_agrees_def by blast+
    then show ?thesis
      by (auto simp: primary_ids_def dest: map_of_SomeD intro: rev_image_eqI)
  next
    case 2
    with assms have "c \<in> fst ` set (active_connections self)"
      and "\<exists>i. map_of (connection_info self) c = Some i"
      unfolding consistent_def index_agrees_def by blast+
    then show ?thesis
      by (auto simp: primary_ids_def dest: map_of_SomeD intro: rev_image_eqI)
  qed
qed

subsection \<open>The invariant of the indexes\<close>

lemma run_after_accept:
  "primary_ids (run_manager [Accept browser ''c1'' True True 10 ''m1'']) = {''c1''}
   \<and> indexed_ids (run_manager [Accept browser ''c1'' True True 10 ''m1'']) = {}"
  by (simp add: run_manager_def accept_connection_def send_message_def WebSocketManager_init_def
      primary_ids_def indexed_ids_def Let_def)

text \<open>
  C7, as the code has it. The inclusion "every connection id in a set of
  \<^verbatim>\<open>user_connections\<close> or of \<^verbatim>\<open>session_connections\<close> is in the primary tables
  (\<^verbatim>\<open>active_connections\<close> and \<^verbatim>\<open>connection_info\<close>)" is kept through a stronger invariant:
  \<^item> in a manager whose indexes agree with its connection records (an id stands in the
    set of a user or session only if the connection is in both primary tables and its
    record names that user or session, which is not empty; each table has one entry per
    id), every indexed id is in the primary tables;
  \<^item> each operation (initialize, accept under a new id, a turn of the receive loop, send,
    broadcast, disconnect, idle sweep, shutdown) takes such a manager to such a manager;
  \<^item> no operation of the manager adds to an index: after every run of operations from
    the manager that \<^verbatim>\<open>__init__\<close> builds both indexes are empty;
  \<^item> the converse fails: after one accept the connection is in the primary tables and in
    no index.
\<close>

theorem index_agreement_preserved:
  "(consistent self \<longrightarrow> indexed_ids self \<subseteq> primary_ids self)
   \<and> (consistent self \<and> fresh_id ev self \<longrightarrow>
        consistent (ws_step ev self)
        \<and> indexed_ids (ws_step ev self) \<subseteq> primary_ids (ws_step ev self))
   \<and> indexed_ids (run_manager evs) = {}
   \<and> (\<exists>evs'. \<not> primary_ids (run_manager evs') \<subseteq> indexed_ids (run_manager evs'))"
proof (intro conjI impI)
  assume "consistent self"
  then show "indexed_ids self \<subseteq> primary_ids self" by (rule consistent_indexed)
next
  assume a: "consistent self \<and> fresh_id ev self"
  then show "consistent (ws_step ev self)" by (simp add: consistent_step)
  then show "indexed_ids (ws_step ev self) \<subseteq> primary_ids (ws_step ev self)"
    by (rule consistent_indexed)
next
  have "user_connections WebSocketManager_init = Map.empty"
    "session_connections WebSocketManager_init = Map.empty"
    by (simp_all add: WebSocketManager_init_def)
  from run_indexes_empty[OF this, of evs]
  show "indexed_ids (run_manager evs) = {}"
    by (simp add: run_manager_def indexed_ids_def)
next
  have "\<not> primary_ids (run_manager [Accept browser ''c1'' True True 10 ''m1''])
          \<subseteq> indexed_ids (run_manager [Accept browser ''c1'' True True 10 ''m1''])"
    by (simp add: run_after_accept)
  then show "\<exists>evs'. \<not> primary_ids (run_manager evs') \<subseteq> indexed_ids (run_manager evs')"
    by blast
qed

lemma alice_manager_consistent: "consistent alice_manager"
  by (auto simp: consistent_def index_agrees_def alice_manager_def split: if_splits)

lemma alice_after_sweep:
  "user_connections (ws_step (Sweep 400) alice_manager) ''alice'' = Some {''c2''}
   \<and> session_connections (ws_step (Sweep 400) alice_manager) ''s1'' = None
   \<and> map fst (connection_info (ws_step (Sweep 400) alice_manager)) = [''c2'']"
  by (simp add: cleanup_sweep_def disconnect_def discard_from_index_def alice_manager_def Let_def)

lemma run_after_accept_consistent:
  "consistent (run_manager [Accept browser ''c1'' True True 10 ''m1''])"
proof -
  have "fresh_id (Accept browser ''c1'' True True 10 ''m1'') WebSocketManager_init"
    by (simp add: WebSocketManager_init_def)
  from consistent_step[OF consistent_init this] show ?thesis
    by (simp add: run_manager_def)
qed

text \<open>
  Two managers. The idle sweep at time 400 on the manager with the two connections of
  \<^verbatim>\<open>alice\<close>: \<^verbatim>\<open>c1\<close> has been idle for more than 300 seconds and is removed from the tables
  and from both indexes; \<^verbatim>\<open>c2\<close> stays. And the manager after one accept, from which the
  connection is disconnected again.
\<close>

theorem index_agreement_preserved_witness:
  "consistent alice_manager \<and> fresh_id (Sweep 400) alice_manager
   \<and> consistent (ws_step (Sweep 400) alice_manager)
   \<and> indexed_ids (ws_step (Sweep 400) alice_manager)
       \<subseteq> primary_ids (ws_step (Sweep 400) alice_manager)
   \<and> user_connections (ws_step (Sweep 400) alice_manager) ''alice'' = Some {''c2''}
   \<and> session_connections (ws_step (Sweep 400) alice_manager) ''s1'' = None
   \<and> consistent (run_manager [Accept browser ''c1'' True True 10 ''m1''])
   \<and> consistent (ws_step (Disconnect ''c1'') (run_manager [Accept browser ''c1'' True True 10 ''m1'']))"
proof -
  have h: "consistent alice_manager \<and> fresh_id (Sweep 400) alice_manager"
    by (simp add: alice_manager_consistent)
  from index_agreement_preserved[of alice_manager "Sweep 400" "[]"] h
  have 1: "consistent (ws_step (Sweep 400) alice_manager)
      \<and> indexed_ids (ws_step (Sweep 400) alice_manager)
          \<subseteq> primary_ids (ws_step (Sweep 400) alice_manager)"
    by blast
  have g: "consistent (run_manager [Accept browser ''c1'' True True 10 ''m1''])
         \<and> fresh_id (Disconnect ''c1'') (run_manager [Accept browser ''c1'' True True 10 ''m1''])"
    by (simp add: run_after_accept_consistent)
  from index_agreement_preserved[of "run_manager [Accept browser ''c1'' True True 10 ''m1'']"
      "Disconnect ''c1''" "[]"] g
  have 2: "consistent (ws_step (Disconnect ''c1'')
             (run_manager [Accept browser ''c1'' True True 10 ''m1'']))"
    by blast
  from h 1 2 g alice_after_sweep show ?thesis by blast
qed

lemma unnamed_user_manager_eval:
  "indexed_ids unnamed_user_manager = {''c1''}
   \<and> primary_ids unnamed_user_manager = {''c1''}
   \<and> indexed_ids (ws_step (Disconnect ''c1'') unnamed_user_manager) = {''c1''}
   \<and> primary_ids (ws_step (Disconnect ''c1'') unnamed_user_manager) = {}"
  by (simp add: unnamed_user_manager_def run_manager_def accept_connection_def send_message_def
      WebSocketManager_init_def disconnect_def discard_from_index_def primary_ids_def
      indexed_ids_def Let_def)

lemma empty_user_manager_eval:
  "indexed_ids empty_user_manager = {''c1''}
   \<and> primary_ids empty_user_manager = {''c1''}
   \<and> indexed_ids (ws_step (Disconnect ''c1'') empty_user_manager) = {''c1''}
   \<and> primary_ids (ws_step (Disconnect ''c1'') empty_user_manager) = {}"
  by (simp add: empty_user_manager_def run_manager_def accept_connection_def send_message_def
      WebSocketManager_init_def disconnect_def discard_from_index_def primary_ids_def
      indexed_ids_def Let_def)

text \<open>
  Against C7 as stated: the inclusion alone is not kept by \<^verbatim>\<open>disconnect\<close>, which takes an
  id out of the index only under the user and the session that the connection record
  names, and not under an empty name. In both managers \<^verbatim>\<open>c1\<close> is indexed and in the
  primary tables; after \<^verbatim>\<open>disconnect("c1")\<close> it has left the primary tables and is still
  indexed.
\<close>

theorem disconnect_breaks_inclusion_counterexample:
  "indexed_ids unnamed_user_manager \<subseteq> primary_ids unnamed_user_manager
   \<and> \<not> indexed_ids (ws_step (Disconnect ''c1'') unnamed_user_manager)
         \<subseteq> primary_ids (ws_step (Disconnect ''c1'') unnamed_user_manager)
   \<and> map_option user_id (map_of (connection_info unnamed_user_manager) ''c1'') = Some None
   \<and> user_connections (ws_step (Disconnect ''c1'') unnamed_user_manager) ''alice'' = Some {''c1''}
   \<and> indexed_ids empty_user_manager \<subseteq> primary_ids empty_user_manager
   \<and> \<not> indexed_ids (ws_step (Disconnect ''c1'') empty_user_manager)
         \<subseteq> primary_ids (ws_step (Disconnect ''c1'') empty_user_manager)
   \<and> map_option user_id (map_of (connection_info empty_user_manager) ''c1'') = Some (Some [])
   \<and> user_connections (ws_step (Disconnect ''c1'') empty_user_manager) [] = Some {''c1''}"
proof -
  have "map_option user_id (map_of (connection_info unnamed_user_manager) ''c1'') = Some None"
    by (simp add: unnamed_user_manager_def run_manager_def accept_connection_def
        send_message_def WebSocketManager_init_def Let_def)
  moreover
  have "user_connections (ws_step (Disconnect ''c1'') unnamed_user_manager) ''alice'' = Some {''c1''}"
    by (simp add: unnamed_user_manager_def run_manager_def accept_connection_def
        send_message_def WebSocketManager_init_def disconnect_def discard_from_index_def Let_def)
  moreover
  have "map_option user_id (map_of (connection_info empty_user_manager) ''c1'') = Some (Some [])"
    by (simp add: empty_user_manager_def run_manager_def accept_connection_def
        send_message_def WebSocketManager_init_def Let_def)
  moreover
  have "user_connections (ws_step (Disconnect ''c1'') empty_user_manager) [] = Some {''c1''}"
    by (simp add: empty_user_manager_def run_manager_def accept_connection_def
        send_message_def WebSocketManager_init_def disconnect_def discard_from_index_def Let_def)
  moreover
  have "indexed_ids unnamed_user_manager \<subseteq> primary_ids unnamed_user_manager
      \<and> \<not> indexed_ids (ws_step (Disconnect ''c1'') unnamed_user_manager)
            \<subseteq> primary_ids (ws_step (Disconnect ''c1'') unnamed_user_manager)"
    using unnamed_user_manager_eval by simp
  moreover
  have "indexed_ids empty_user_manager \<subseteq> primary_ids empty_user_manager
      \<and> \<not> indexed_ids (ws_step (Disconnect ''c1'') empty_user_manager)
            \<subseteq> primary_ids (ws_step (Disconnect ''c1'') empty_user_manager)"
    using empty_user_manager_eval by simp
  ultimately show ?thesis by blast
qed

end
